theory Spec2Isabelle
  imports Complex_Main "HOL-Library.Word"
begin

section \<open>Phonon interpolation (simphony/data/interpolation.py)\<close>

text \<open>
  Arrays are lists (row major), float64 values are modelled as exact reals and complex128
  values as exact complex numbers. Every exception the source can raise is a value of
  \<open>error\<close>; a function that can raise returns \<open>error + 'a\<close>.
\<close>

datatype error = IndexError | LinAlgError | ValueError | NoAcousticModes

type_synonym rvec = "real list"
type_synonym rmat = "real list list"
type_synonym cmat = "complex list list"

subsection \<open>Array helpers\<close>

text \<open>\<open>np.transpose\<close> of a two-dimensional array.\<close>

definition mtranspose :: "'a list list \<Rightarrow> 'a list list" where
  "mtranspose M = (if M = [] then [] else map (\<lambda>j. map (\<lambda>r. r ! j) M) [0..<length (hd M)])"

text \<open>\<open>np.reshape\<close> of a flat array into rows of length \<open>k\<close>.\<close>

function chunk :: "nat \<Rightarrow> 'a list \<Rightarrow> 'a list list" where
  "chunk k xs = (if k = 0 \<or> xs = [] then [] else take k xs # chunk k (drop k xs))"
  by pat_completeness auto
termination
  by (relation "measure (\<lambda>(k, xs). length xs)") auto

declare chunk.simps [simp del]

subsection \<open>Post-processing of one eigen-decomposition (lines 502-506)\<close>

text \<open>
  \<open>imag_freqs = np.where(evals < 0); evals = np.sqrt(np.abs(evals)); evals[imag_freqs] *= -1\<close>
\<close>

definition signed_freqs :: "real list \<Rightarrow> real list" where
  "signed_freqs evals = map (\<lambda>e. if e < 0 then sqrt \<bar>e\<bar> * (- 1) else sqrt \<bar>e\<bar>) evals"

text \<open>\<open>evecs = np.reshape(np.transpose(evecs), (n_branches, n_ions, 3))\<close>\<close>

definition reshape_evecs :: "cmat \<Rightarrow> complex list list list" where
  "reshape_evecs evecs = map (chunk 3) (mtranspose evecs)"

subsection \<open>Linear algebra on lists\<close>

definition dot :: "('a::comm_semiring_0) list \<Rightarrow> 'a list \<Rightarrow> 'a" where
  "dot u v = sum_list (map2 (*) u v)"

text \<open>Row vector times matrix, \<open>np.einsum('j,jk->k', v, M)\<close>.\<close>

definition vecmat :: "('a::comm_semiring_0) list \<Rightarrow> 'a list list \<Rightarrow> 'a list" where
  "vecmat v M = map (\<lambda>col. dot v col) (mtranspose M)"

definition matmul :: "('a::comm_semiring_0) list list \<Rightarrow> 'a list list \<Rightarrow> 'a list list" where
  "matmul A B = map (\<lambda>r. vecmat r B) A"

definition vsub :: "('a::minus) list \<Rightarrow> 'a list \<Rightarrow> 'a list" where
  "vsub u v = map2 (-) u v"

definition vadd :: "('a::plus) list \<Rightarrow> 'a list \<Rightarrow> 'a list" where
  "vadd u v = map2 (+) u v"

definition det3 :: "real list list \<Rightarrow> real" where
  "det3 M = M ! 0 ! 0 * (M ! 1 ! 1 * M ! 2 ! 2 - M ! 1 ! 2 * M ! 2 ! 1)
          - M ! 0 ! 1 * (M ! 1 ! 0 * M ! 2 ! 2 - M ! 1 ! 2 * M ! 2 ! 0)
          + M ! 0 ! 2 * (M ! 1 ! 0 * M ! 2 ! 1 - M ! 1 ! 1 * M ! 2 ! 0)"

text \<open>
  \<open>np.linalg.inv\<close> of a \<open>3 \<times> 3\<close> array: \<open>None\<close> stands for the \<open>LinAlgError\<close> numpy
  raises on a singular matrix.
\<close>

definition inv3 :: "real list list \<Rightarrow> real list list option" where
  "inv3 M = (let d = det3 M in if d = 0 then None else Some
     [[(M ! 1 ! 1 * M ! 2 ! 2 - M ! 1 ! 2 * M ! 2 ! 1) / d,
       (M ! 0 ! 2 * M ! 2 ! 1 - M ! 0 ! 1 * M ! 2 ! 2) / d,
       (M ! 0 ! 1 * M ! 1 ! 2 - M ! 0 ! 2 * M ! 1 ! 1) / d],
      [(M ! 1 ! 2 * M ! 2 ! 0 - M ! 1 ! 0 * M ! 2 ! 2) / d,
       (M ! 0 ! 0 * M ! 2 ! 2 - M ! 0 ! 2 * M ! 2 ! 0) / d,
       (M ! 0 ! 2 * M ! 1 ! 0 - M ! 0 ! 0 * M ! 1 ! 2) / d],
      [(M ! 1 ! 0 * M ! 2 ! 1 - M ! 1 ! 1 * M ! 2 ! 0) / d,
       (M ! 0 ! 1 * M ! 2 ! 0 - M ! 0 ! 0 * M ! 2 ! 1) / d,
       (M ! 0 ! 0 * M ! 1 ! 1 - M ! 0 ! 1 * M ! 1 ! 0) / d]])"

definition of_int_mat :: "int list list \<Rightarrow> real list list" where
  "of_int_mat M = map (map of_int) M"

text \<open>\<open>np.amax\<close> of a non-empty one-dimensional array.\<close>

definition amax :: "('a::linorder) list \<Rightarrow> 'a" where
  "amax xs = fold max (tl xs) (hd xs)"

subsection \<open>\<open>_get_all_origins\<close> (lines 915-946)\<close>

definition np_repeat :: "'a list \<Rightarrow> nat \<Rightarrow> 'a list" where
  "np_repeat xs k = concat (map (replicate k) xs)"

definition np_tile :: "'a list \<Rightarrow> nat \<Rightarrow> 'a list" where
  "np_tile xs k = concat (replicate k xs)"

text \<open>\<open>range(a, b, 1)\<close>; the step is 1 at every call site.\<close>

definition py_range :: "int \<Rightarrow> int \<Rightarrow> int list" where
  "py_range a b = [a..b - 1]"

definition get_all_origins :: "int list \<Rightarrow> int list \<Rightarrow> int list list" where
  "get_all_origins max_xyz min_xyz =
    (let diff = map2 (\<lambda>a b. nat \<bar>a - b\<bar>) max_xyz min_xyz;
         nx = np_repeat (py_range (min_xyz ! 0) (max_xyz ! 0)) (diff ! 1 * diff ! 2);
         ny = np_repeat (np_tile (py_range (min_xyz ! 1) (max_xyz ! 1)) (diff ! 0)) (diff ! 2);
         nz = np_tile (py_range (min_xyz ! 2) (max_xyz ! 2)) (diff ! 0 * diff ! 1)
     in map (\<lambda>k. [nx ! k, ny ! k, nz ! k]) [0..<length nx])"

subsection \<open>\<open>_calculate_supercell_images\<close> (lines 1188-1250)\<close>

text \<open>
  The attributes of \<open>InterpolationData\<close> the interpolation reads. \<open>cell_vec\<close>,
  \<open>ion_mass\<close> and \<open>force_constants\<close> hold the magnitudes in the units the code converts
  to (bohr, electron masses, atomic units); \<open>born\<close> and \<open>dielectric\<close> are \<open>None\<close> when
  the object has no such attribute.
\<close>

record idata =
  n_ions :: nat
  cell_vec :: "real list list"
  ion_r :: "real list list"
  ion_mass :: "real list"
  n_cells_in_sc :: nat
  sc_matrix :: "int list list"
  cell_origins :: "int list list"
  force_constants :: "real list list list"
  born :: "real list list list option"
  dielectric :: "real list list option"

definition ws_frac :: "int list list" where
  "ws_frac = [[0, 0, 0], [0, 0, 1], [0, 1, 0], [0, 1, 1],
              [0, 1, - 1], [1, 0, 0], [1, 0, 1], [1, 0, - 1],
              [1, 1, 0], [1, 1, 1], [1, 1, - 1], [1, - 1, 0],
              [1, - 1, 1], [1, - 1, - 1]]"

text \<open>The tables \<open>sc_image_i\<close>, \<open>n_sc_images\<close> (both \<open>int8\<close>) and \<open>max_sc_images\<close>.\<close>

record sc_images =
  sc_image_i :: "8 word list list list list"
  n_sc_images :: "8 word list list list"
  max_sc_images :: int

text \<open>
  The indices (into the list of candidate supercell translations) of the images of the
  displacement between ion \<open>i\<close> of the first cell and ion \<open>j\<close> of cell \<open>nc\<close> that pass the
  Wigner-Seitz test \<open>amax \<le> 0.5 * cutoff_scale + 0.001\<close>.
\<close>

definition ws_images ::
  "real list list \<Rightarrow> real list \<Rightarrow> real list list \<Rightarrow> real list \<Rightarrow> real list \<Rightarrow> nat list" where
  "ws_images ws_pts inv_ws_sq sc_image_cart ri rj =
    (let dists = map (\<lambda>im. vsub (vsub ri rj) im) sc_image_cart;
         dist_ws_points = map (\<lambda>d. map (\<lambda>w. dot d w) ws_pts) dists;
         dist_wsp_frac = map (\<lambda>row. map2 (\<lambda>x s. \<bar>x * s\<bar>) row inv_ws_sq) dist_ws_points
     in filter (\<lambda>k. amax (dist_wsp_frac ! k) \<le> 0.5 * 1.0 + 0.001) [0..<length dists])"

definition sc_vecs :: "idata \<Rightarrow> real list list" where
  "sc_vecs d = matmul (of_int_mat (sc_matrix d)) (cell_vec d)"

definition ws_list :: "idata \<Rightarrow> real list list" where
  "ws_list d = matmul (of_int_mat ws_frac) (sc_vecs d)"

definition inv_ws_sq :: "idata \<Rightarrow> real list" where
  "inv_ws_sq d = map (\<lambda>w. 1.0 / sum_list (map (\<lambda>x. x * x) w)) (tl (ws_list d))"

definition sc_image_r :: "int \<Rightarrow> int list list" where
  "sc_image_r lm = get_all_origins [lm + 1, lm + 1, lm + 1] [- lm, - lm, - lm]"

definition sc_image_cart :: "idata \<Rightarrow> int \<Rightarrow> real list list" where
  "sc_image_cart d lm = matmul (of_int_mat (sc_image_r lm)) (sc_vecs d)"

text \<open>
  \<open>sc_ion_cart[nc, i]\<close>, where \<open>inv_sc\<close> is \<open>np.linalg.inv(np.transpose(sc_matrix))\<close>.
\<close>

definition sc_ion_cart :: "idata \<Rightarrow> real list list \<Rightarrow> nat \<Rightarrow> nat \<Rightarrow> real list" where
  "sc_ion_cart d inv_sc nc i =
     vecmat (vecmat (vadd (map of_int (cell_origins d ! nc)) (ion_r d ! i)) inv_sc) (sc_vecs d)"

text \<open>The array \<open>sc_images\<close> of the loop body (lines 1236-1244) for one triple.\<close>

definition image_list :: "idata \<Rightarrow> int \<Rightarrow> real list list \<Rightarrow> nat \<Rightarrow> nat \<Rightarrow> nat \<Rightarrow> nat list" where
  "image_list d lm inv_sc nc i j =
     ws_images (tl (ws_list d)) (inv_ws_sq d) (sc_image_cart d lm)
       (sc_ion_cart d inv_sc 0 i) (sc_ion_cart d inv_sc nc j)"

definition calculate_supercell_images :: "idata \<Rightarrow> int \<Rightarrow> error + sc_images" where
  "calculate_supercell_images d lm =
    (case inv3 (mtranspose (of_int_mat (sc_matrix d))) of
       None \<Rightarrow> Inl LinAlgError
     | Some inv_sc \<Rightarrow>
        (let width = nat ((2 * lm + 1) ^ 3);
             tab = map (\<lambda>nc. map (\<lambda>i. map (\<lambda>j. image_list d lm inv_sc nc i j)
                     [0..<n_ions d]) [0..<n_ions d]) [0..<n_cells_in_sc d];
             counts = map (map (map (\<lambda>im. (word_of_nat (length im) :: 8 word)))) tab
         in Inr \<lparr> sc_image_i = map (map (map (\<lambda>im. map word_of_nat im
                       @ replicate (width - length im) (- 1)))) tab,
                  n_sc_images = counts,
                  max_sc_images = amax (map sint (concat (map concat counts))) \<rparr>))"

text \<open>
  A two-ion cell whose second lattice vector is strongly skewed: \<open>b = 6 a + (0, 1, 0)\<close>,
  with one ion at the origin and one at \<open>b / 2\<close>; the supercell is the cell itself.
\<close>

definition skew_cell :: idata where
  "skew_cell = \<lparr> n_ions = 2, cell_vec = [[1, 0, 0], [6, 1, 0], [0, 0, 1]],
     ion_r = [[0, 0, 0], [0, 1 / 2, 0]], ion_mass = [1, 1], n_cells_in_sc = 1,
     sc_matrix = [[1, 0, 0], [0, 1, 0], [0, 0, 1]], cell_origins = [[0, 0, 0]],
     force_constants = [replicate 6 (replicate 6 0)], born = None, dielectric = None \<rparr>"

subsection \<open>Cached Ewald tables\<close>

text \<open>
  The attributes \<open>_dipole_correction_init\<close> leaves on the object (lines 753-764, 718). The
  initialisation itself (lines 618-764: the complementary error function and the real- and
  reciprocal-space kernels) is not modelled: it is the parameter \<open>dipole_correction_init\<close>
  below.
\<close>

record ewald =
  eta :: real
  max_cells_abc :: "int list"
  max_cells_hkl :: "int list"
  recip_cutoff :: real
  H_ab :: "real list list list list list"
  cells_in_range :: "nat list list list"
  gvec_phases :: "complex list list"
  gvecs_cart :: "real list list"
  dipole_q0 :: "complex list list list"

subsection \<open>Library functions the code calls\<close>

text \<open>
  The numerical library and the helpers of \<open>simphony.util\<close> are parameters of the model:
  \<open>eigh\<close> is \<open>np.linalg.eigh\<close> on a complex array and \<open>eigh_real\<close> on a float array
  (\<open>None\<close> when it raises \<open>LinAlgError\<close>), \<open>zheev\<close> is the LAPACK wrapper returning
  \<open>(w, v, info)\<close>, \<open>is_gamma\<close> and \<open>reciprocal_lattice\<close> are the functions imported from
  \<open>simphony.util\<close>, \<open>uninit c y x\<close> is the content of a freshly allocated output array at
  an entry that \<open>np.divide(..., where=...)\<close> does not write, \<open>to_freq_units\<close> is the
  conversion pint makes from hartree to the units of \<open>self.freqs\<close>, and
  \<open>non_finite q_dir x y\<close> stands for the entry \<open>(x, y)\<close> of a non-analytic correction
  whose factor is a float division by zero (\<open>inf\<close> or \<open>nan\<close>, with a warning and no
  exception), which is no number of the model: nothing is assumed of it.
\<close>

record externals =
  eigh :: "complex list list \<Rightarrow> (real list \<times> complex list list) option"
  eigh_real :: "real list list \<Rightarrow> (real list \<times> real list list) option"
  zheev :: "complex list list \<Rightarrow> real list \<times> complex list list \<times> int"
  is_gamma :: "real list \<Rightarrow> bool"
  reciprocal_lattice :: "real list list \<Rightarrow> real list list"
  uninit :: "nat \<Rightarrow> nat \<Rightarrow> nat \<Rightarrow> real"
  to_freq_units :: "real \<Rightarrow> real"
  dipole_correction_init :: "idata \<Rightarrow> error + ewald"
  non_finite :: "real list \<Rightarrow> nat \<Rightarrow> nat \<Rightarrow> complex"

text \<open>\<open>np.rint\<close>: round to the nearest integer, ties to the even one.\<close>

definition rint :: "real \<Rightarrow> real" where
  "rint x = (let f = \<lfloor>x\<rfloor>; r = x - of_int f in
     if r < 1 / 2 then of_int f else if 1 / 2 < r then of_int (f + 1)
     else if even f then of_int f else of_int (f + 1))"

text \<open>\<open>np.unique(xs, return_inverse=True)\<close>.\<close>

definition np_unique :: "int list \<Rightarrow> int list \<times> nat list" where
  "np_unique xs = (let u = sort (remdups xs)
     in (u, map (\<lambda>x. length (takeWhile (\<lambda>y. y \<noteq> x) u)) xs))"

text \<open>
  Python indexing with an index that may be negative. At every use below the index is in
  range, see \<open>sc_image_index_in_range\<close>.
\<close>

definition py_nth :: "'a list \<Rightarrow> int \<Rightarrow> 'a" where
  "py_nth xs k = xs ! nat (if k < 0 then k + int (length xs) else k)"

subsection \<open>\<open>_calculate_phases\<close> (lines 1123-1185)\<close>

definition calculate_phases ::
  "real list \<Rightarrow> int list list \<Rightarrow> nat list list \<Rightarrow> int list list \<Rightarrow> nat list list
    \<Rightarrow> complex list \<times> complex list" where
  "calculate_phases q unique_sc_offsets unique_sc_i unique_cell_origins unique_cell_i =
    (let phase = map (\<lambda>x. exp (2 * \<i> * complex_of_real pi * complex_of_real x)) q
     in fold (\<lambda>i (sc_phases, cell_phases).
          (let unique_sc_phases = map (\<lambda>k. (phase ! i) powi k) (unique_sc_offsets ! i);
               unique_cell_phases = map (\<lambda>k. (phase ! i) powi k) (unique_cell_origins ! i)
           in (map2 (\<lambda>p row. p * unique_sc_phases ! (row ! i)) sc_phases unique_sc_i,
               map2 (\<lambda>p row. p * unique_cell_phases ! (row ! i)) cell_phases unique_cell_i)))
        [0..<3]
        (replicate (length unique_sc_i) 1, replicate (length unique_cell_i) 1))"

subsection \<open>\<open>_calculate_dyn_mat\<close> (lines 534-615)\<close>

definition calculate_dyn_mat ::
  "nat \<Rightarrow> sc_images \<Rightarrow> real list \<Rightarrow> real list list list \<Rightarrow> int list list \<Rightarrow> nat list list
    \<Rightarrow> int list list \<Rightarrow> nat list list \<Rightarrow> complex list list" where
  "calculate_dyn_mat n imgs q fc_img_weighted unique_sc_offsets unique_sc_i
      unique_cell_origins unique_cell_i =
    (let ph = calculate_phases q unique_sc_offsets unique_sc_i unique_cell_origins unique_cell_i;
         sc_phases = fst ph @ [0];
         cell_phases = snd ph;
         sc_phase_sum = map (map (map (\<lambda>idx. sum_list (map (\<lambda>w. py_nth sc_phases (sint w))
                           (take (nat (max_sc_images imgs)) idx))))) (sc_image_i imgs);
         ij_phases = map2 (\<lambda>cp blk. map (map (\<lambda>s. cp * s)) blk) cell_phases sc_phase_sum;
         full_dyn_mat = map2 (\<lambda>fc ph. map (\<lambda>y. map (\<lambda>x.
                           complex_of_real (fc ! y ! x) * ph ! (x div 3) ! (y div 3))
                           [0..<3 * n]) [0..<3 * n]) fc_img_weighted ij_phases;
         dyn_mat = map (\<lambda>y. map (\<lambda>x. sum_list (map (\<lambda>m. m ! y ! x) full_dyn_mat))
                           [0..<3 * n]) [0..<3 * n]
     in mtranspose dyn_mat)"

subsection \<open>\<open>_calculate_gamma_correction\<close> (lines 874-912)\<close>

definition cross :: "real list \<Rightarrow> real list \<Rightarrow> real list" where
  "cross u v = [u ! 1 * v ! 2 - u ! 2 * v ! 1, u ! 2 * v ! 0 - u ! 0 * v ! 2,
                u ! 0 * v ! 1 - u ! 1 * v ! 0]"

definition cell_volume :: "idata \<Rightarrow> real" where
  "cell_volume d = dot (cell_vec d ! 0) (cross (cell_vec d ! 1) (cell_vec d ! 2))"

text \<open>
  Where \<open>cell_volume * denominator\<close> is 0 (a direction \<open>q_dir\<close> with \<open>q.eps.q = 0\<close>, as
  between two zone-centre points in a row) line 902 divides by zero: \<open>factor\<close> is \<open>inf\<close> and
  every entry of the correction is \<open>inf\<close> or \<open>nan\<close>. These entries are \<open>non_finite\<close>.
\<close>

definition calculate_gamma_correction ::
  "externals \<Rightarrow> idata \<Rightarrow> real list list list \<Rightarrow> real list list \<Rightarrow> real list
    \<Rightarrow> complex list list" where
  "calculate_gamma_correction ext d brn diel q_dir =
    (let denominator = sum_list (map (\<lambda>i. sum_list (map (\<lambda>j.
                          diel ! i ! j * q_dir ! i * q_dir ! j) [0..<3])) [0..<3]);
         q_born_sum = map (\<lambda>bi. map (\<lambda>row. dot row q_dir) bi) brn
     in map (\<lambda>x. map (\<lambda>y.
          if cell_volume d * denominator = 0 then non_finite ext q_dir x y
          else complex_of_real
                 (q_born_sum ! (x div 3) ! (x mod 3) * q_born_sum ! (y div 3) ! (y mod 3))
               * complex_of_real (4 * pi / (cell_volume d * denominator)))
        [0..<3 * n_ions d]) [0..<3 * n_ions d])"

subsection \<open>\<open>_calculate_dipole_correction\<close> (lines 767-871)\<close>

text \<open>
  The method in two parts: \<open>dipole_matrix\<close> is the array it returns, given
  \<open>recip = reciprocal_lattice(cell_vec)\<close>, and
  \<open>calculate_dipole_correction\<close> adds the two ways it can raise, \<open>np.linalg.inv\<close> of a
  singular dielectric tensor (\<open>LinAlgError\<close>) and \<open>math.sqrt\<close> of a negative determinant
  (\<open>ValueError\<close>).
\<close>

text \<open>Sum of a list of \<open>3 \<times> 3\<close> blocks, and a block scaled by a real number.\<close>

definition block_sum :: "complex list list list \<Rightarrow> complex list list" where
  "block_sum ms = map (\<lambda>a. map (\<lambda>b. sum_list (map (\<lambda>m. m ! a ! b) ms)) [0..<3]) [0..<3]"

definition block_scale :: "real \<Rightarrow> complex list list \<Rightarrow> complex list list" where
  "block_scale c m = map (map (\<lambda>z. z * complex_of_real c)) m"

definition dipole_matrix ::
  "real list list \<Rightarrow> idata \<Rightarrow> real list list list \<Rightarrow> real list list \<Rightarrow> ewald \<Rightarrow> real list
    \<Rightarrow> complex list list" where
  "dipole_matrix recip d brn diel ew q =
     (let n = n_ions d;
          eta_2 = eta ew ^ 2;
          q_norm = map (\<lambda>x. x - rint x) q;
          epsilon = 1 / 10 ^ 10;
          origins = get_all_origins (map (\<lambda>m. m + 1) (max_cells_abc ew))
                      (map uminus (max_cells_abc ew));
          q_dot_ra = map (\<lambda>r. dot q_norm (map of_int r)) origins;
          real_phases = map (\<lambda>x. exp (2 * \<i> * complex_of_real pi * complex_of_real x)) q_dot_ra;
          real_upper = (\<lambda>i j. block_scale (eta ew ^ 3 / sqrt (det3 diel))
             (block_sum (map2 (\<lambda>h c. map (map (\<lambda>x. complex_of_real x * real_phases ! c)) h)
                (H_ab ew ! i ! j) (cells_in_range ew ! i ! j))));
          q_dot_r = map (\<lambda>r. dot q_norm r) (ion_r d);
          q_phases = map (\<lambda>x. exp (2 * \<i> * complex_of_real pi * complex_of_real x)) q_dot_r;
          q_cart = vecmat q_norm recip;
          kvecs = map (\<lambda>g. vadd g q_cart) (gvecs_cart ew);
          kvecs_ab = map (\<lambda>k. map (\<lambda>a. map (\<lambda>b. k ! a * k ! b) [0..<3]) [0..<3]) kvecs;
          k_len_2 = map (\<lambda>kab. sum_list (map (\<lambda>a. sum_list (map (\<lambda>b.
                       kab ! a ! b * diel ! a ! b) [0..<3])) [0..<3]) / (4 * eta_2)) kvecs_ab;
          k_len = map sqrt k_len_2;
          idx = filter (\<lambda>g. epsilon < k_len ! g \<and> k_len ! g < recip_cutoff ew)
                  [0..<length k_len];
          recip_exp = map (\<lambda>g. map (map (\<lambda>x. x * (exp (- (k_len_2 ! g)) / k_len_2 ! g)))
                              (kvecs_ab ! g)) idx;
          phases_in = map (\<lambda>g. gvec_phases ew ! g) idx;
          recip_upper = (\<lambda>i j. block_scale (pi / (cell_volume d * eta_2))
             (block_sum (map2 (\<lambda>re gp. map (map (\<lambda>x. complex_of_real x *
                  ((gp ! i * q_phases ! i) / (gp ! j * q_phases ! j)))) re) recip_exp phases_in)));
          real_dipole = (\<lambda>i j. if i \<le> j then real_upper i j else map (map cnj) (real_upper j i));
          recip_dipole = (\<lambda>i j. if i \<le> j then recip_upper i j
                                  else map (map cnj) (recip_upper j i));
          dipole_tmp = (\<lambda>i j. map2 (map2 (-)) (recip_dipole i j) (real_dipole i j));
          dipole = (\<lambda>i j a b.
             sum_list (map (\<lambda>c. sum_list (map (\<lambda>e. complex_of_real (brn ! i ! a ! c)
                  * complex_of_real (brn ! j ! b ! e) * dipole_tmp i j ! c ! e) [0..<3])) [0..<3])
             - (if i = j then dipole_q0 ew ! i ! a ! b else 0))
      in map (\<lambda>x. map (\<lambda>y. dipole (x div 3) (y div 3) (x mod 3) (y mod 3))
           [0..<3 * n]) [0..<3 * n])"

definition calculate_dipole_correction ::
  "externals \<Rightarrow> idata \<Rightarrow> real list list list \<Rightarrow> real list list \<Rightarrow> ewald \<Rightarrow> real list
    \<Rightarrow> error + complex list list" where
  "calculate_dipole_correction ext d brn diel ew q =
    (case inv3 diel of
       None \<Rightarrow> Inl LinAlgError
     | Some inv_dielectric \<Rightarrow>
        if det3 diel < 0 then Inl ValueError
        else Inr (dipole_matrix (reciprocal_lattice ext (cell_vec d)) d brn diel ew q))"

subsection \<open>\<open>_find_acoustic_modes\<close> (lines 1075-1120)\<close>

text \<open>
  \<open>np.argsort\<close>; where two entries are equal the order numpy gives is not specified, the
  model keeps the lower index first.
\<close>

definition argsort :: "real list \<Rightarrow> nat list" where
  "argsort xs = sort_key (\<lambda>k. xs ! k) [0..<length xs]"

text \<open>
  Lines 1107-1111: for each mode the squared magnitude of the displacement summed over the
  ions.
\<close>

definition c_of_m_disp_sq :: "('a::real_normed_field) list list \<Rightarrow> real list" where
  "c_of_m_disp_sq evecs =
    (let evec_reshape = map (chunk 3) (mtranspose evecs);
         c_of_m_disp = map (\<lambda>mode. map (\<lambda>a. sum_list (map (\<lambda>ion. ion ! a) mode))
                          [0..<3]) evec_reshape
     in map (\<lambda>c. sum_list (map (\<lambda>z. (norm z) ^ 2) c)) c_of_m_disp)"

definition find_acoustic_modes ::
  "('a list list \<Rightarrow> (real list \<times> 'a list list) option) \<Rightarrow> ('a::real_normed_field) list list
    \<Rightarrow> error + (nat list \<times> real list \<times> 'a list list)" where
  "find_acoustic_modes solver dyn_mat =
    (let n_branches = length dyn_mat;
         n = n_branches div 3
     in case solver dyn_mat of
          None \<Rightarrow> Inl LinAlgError
        | Some (evals, evecs) \<Rightarrow>
           (let sensitivity = 0.5;
                sc_mass = 1.0 * real n
            in if length (filter (\<lambda>x. sensitivity * sc_mass < x) (c_of_m_disp_sq evecs)) < 3
               then Inl NoAcousticModes
               else Inr (drop (length (c_of_m_disp_sq evecs) - 3)
                           (argsort (c_of_m_disp_sq evecs)), evals, evecs)))"

subsection \<open>\<open>_enforce_reciprocal_asr\<close> (lines 1033-1072)\<close>

datatype warning = WarnNoRelativeIndex | WarnNoAcousticModesFC | WarnNoAcousticModesDynMat

definition amin :: "('a::linorder) list \<Rightarrow> 'a" where
  "amin xs = fold min (tl xs) (hd xs)"

text \<open>\<open>M - c * np.einsum('i,j->ij', evecs[:, ac], evecs[:, ac])\<close>\<close>

definition sub_outer :: "('a::real_normed_field) list list \<Rightarrow> real \<Rightarrow> 'a list list \<Rightarrow> nat
    \<Rightarrow> 'a list list" where
  "sub_outer M c evecs ac =
    (let v = map (\<lambda>r. r ! ac) evecs
     in map (\<lambda>i. map (\<lambda>j. M ! i ! j - of_real c * (v ! i * v ! j)) [0..<length (M ! i)])
          [0..<length M])"

definition enforce_reciprocal_asr ::
  "externals \<Rightarrow> complex list list \<Rightarrow> complex list list \<Rightarrow> complex list list \<times> warning list" where
  "enforce_reciprocal_asr ext dyn_mat_gamma dyn_mat =
    (case find_acoustic_modes (eigh ext) dyn_mat_gamma of
       Inl e \<Rightarrow> (dyn_mat, [WarnNoAcousticModesDynMat])
     | Inr (ac_i, evals, evecs) \<Rightarrow>
        (let tol = 1 / 10 ^ 8 * amin (map abs evals)
         in (fold (\<lambda>(i, ac) dm. sub_outer dm (tol * real i + evals ! ac) evecs ac)
               (enumerate 0 ac_i) dyn_mat, [])))"

subsection \<open>\<open>_enforce_realspace_asr\<close> (lines 949-1030)\<close>

text \<open>\<open>sys.float_info.max\<close> and \<open>sys.float_info.epsilon\<close>\<close>

definition float_max :: real where
  "float_max = (2 - 1 / 2 ^ 52) * 2 ^ 1023"

definition float_epsilon :: real where
  "float_epsilon = 1 / 2 ^ 52"

text \<open>\<open>np.argmin\<close>: the first index of the least entry.\<close>

definition argmin :: "real list \<Rightarrow> nat" where
  "argmin xs = length (takeWhile (\<lambda>x. x \<noteq> amin xs) xs)"

text \<open>
  The chunked search (lines 989-1003) for the cell equivalent to each cell-cell vector:
  one pass of the loop body on the state \<open>(dist_min, sc_relative_index)\<close>, and the loop
  over the values of \<open>i\<close> still to run, which stops early when every distance is within
  16 machine epsilon.
\<close>

definition relative_index_step ::
  "real list list \<Rightarrow> real list list \<Rightarrow> nat \<Rightarrow> nat \<Rightarrow> real list \<times> nat list
    \<Rightarrow> real list \<times> nat list" where
  "relative_index_step cell_origins_sc inter_cell_vectors n_cells i st =
    (let ci = i * 100;
         cf = min ((i + 1) * 100) n_cells;
         blk = take (cf - ci) (drop ci cell_origins_sc);
         dist_frac_sum = map (\<lambda>v. map (\<lambda>c. sum_list (map (\<lambda>x. \<bar>x - rint x\<bar>) (vsub v c))) blk)
                           inter_cell_vectors;
         scri_current = map argmin dist_frac_sum;
         dist_min_current = map2 (\<lambda>row k. row ! k) dist_frac_sum scri_current;
         replace = map2 (<) dist_min_current (fst st);
         sc_relative_index = map2 (\<lambda>r (new, old). if r then ci + new else old) replace
                               (zip scri_current (snd st));
         dist_min = map2 (\<lambda>r (new, old). if r then new else old) replace
                      (zip dist_min_current (fst st))
     in (dist_min, sc_relative_index))"

fun relative_index_search ::
  "(nat \<Rightarrow> real list \<times> nat list \<Rightarrow> real list \<times> nat list) \<Rightarrow> nat list
    \<Rightarrow> real list \<times> nat list \<Rightarrow> real list \<times> nat list" where
  "relative_index_search step [] st = st"
| "relative_index_search step (i # rest) st =
    (if list_all (\<lambda>x. x \<le> 16 * float_epsilon) (fst (step i st)) then step i st
     else relative_index_search step rest (step i st))"

text \<open>
  Lines 980-1003 for cell \<open>nc\<close>: the least distances \<open>dist_min\<close> and the indices
  \<open>sc_relative_index\<close> the search ends with.
\<close>

definition relative_index :: "idata \<Rightarrow> real list list \<Rightarrow> nat \<Rightarrow> real list \<times> nat list" where
  "relative_index d cell_origins_sc nc =
    (let n_cells = n_cells_in_sc d;
         inter_cell_vectors = map (\<lambda>c. vsub c (cell_origins_sc ! nc)) cell_origins_sc
     in relative_index_search
          (relative_index_step cell_origins_sc inter_cell_vectors n_cells)
          [0..<(n_cells - 1) div 100 + 1]
          (replicate n_cells float_max, replicate n_cells 0))"

text \<open>
  The rows of \<open>sq_fc\<close> written for cell \<open>nc\<close> (lines 1004-1011); \<open>None\<close> when the loop is
  left through the warning of lines 1004-1008.
\<close>

definition square_rows :: "idata \<Rightarrow> real list list \<Rightarrow> nat \<Rightarrow> real list list option" where
  "square_rows d cell_origins_sc nc =
    (let found = relative_index d cell_origins_sc nc
     in if list_ex (\<lambda>x. 16 * float_epsilon < x) (fst found) then None
        else Some (mtranspose (concat (map (\<lambda>k. force_constants d ! k) (snd found)))))"

fun square_force_constants ::
  "(nat \<Rightarrow> real list list option) \<Rightarrow> nat list \<Rightarrow> real list list option" where
  "square_force_constants rows [] = Some []"
| "square_force_constants rows (nc # ncs) =
    (case rows nc of
       None \<Rightarrow> None
     | Some r \<Rightarrow> (case square_force_constants rows ncs of
                    None \<Rightarrow> None
                  | Some rs \<Rightarrow> Some (r @ rs)))"

text \<open>\<open>cell_origins_sc = np.einsum('ij,kj->ik', cell_origins, inv_sc_matrix)\<close>\<close>

definition cell_origins_sc :: "idata \<Rightarrow> real list list \<Rightarrow> real list list" where
  "cell_origins_sc d inv_sc_matrix =
     matmul (of_int_mat (cell_origins d)) (mtranspose inv_sc_matrix)"

definition enforce_realspace_asr ::
  "externals \<Rightarrow> idata \<Rightarrow> error + real list list list \<times> warning list" where
  "enforce_realspace_asr ext d =
    (case inv3 (mtranspose (of_int_mat (sc_matrix d))) of
       None \<Rightarrow> Inl LinAlgError
     | Some inv_sc_matrix \<Rightarrow>
        (let n = n_ions d;
             cell_origins_sc = cell_origins_sc d inv_sc_matrix
         in case square_force_constants (square_rows d cell_origins_sc)
                   [0..<n_cells_in_sc d] of
              None \<Rightarrow> Inr (force_constants d, [WarnNoRelativeIndex])
            | Some sq_fc \<Rightarrow>
               (case find_acoustic_modes (eigh_real ext) sq_fc of
                  Inl e \<Rightarrow> Inr (force_constants d, [WarnNoAcousticModesFC])
                | Inr (ac_i, evals, evecs) \<Rightarrow>
                   (let fc_tol = 1 / 10 ^ 8 * amin (map abs evals);
                        corrected = fold (\<lambda>ac m. sub_outer m (fc_tol + evals ! ac) evecs ac)
                                      ac_i sq_fc
                    in Inr (chunk (3 * n) (map (take (3 * n)) corrected), [])))))"

subsection \<open>\<open>calculate_fine_phonons\<close> (lines 331-531)\<close>

text \<open>
  The model is of a call on an object that carries no cached table yet
  (\<open>force_constants_asr\<close>, \<open>eta\<close>, \<open>sc_image_i\<close>), so every table is built by the call.
  The \<open>asr\<close> argument is \<open>None\<close>, \<open>'realspace'\<close> or \<open>'reciprocal'\<close>.
\<close>

datatype asr_mode = AsrNone | AsrRealspace | AsrReciprocal

definition py_index :: "'a list \<Rightarrow> int \<Rightarrow> error + 'a" where
  "py_index xs k = (if - int (length xs) \<le> k \<and> k < int (length xs)
     then Inr (py_nth xs k) else Inl IndexError)"

definition madd :: "complex list list \<Rightarrow> complex list list \<Rightarrow> complex list list" where
  "madd A B = map2 (map2 (+)) A B"

text \<open>The directions of approach of lines 471-476.\<close>

definition q_dirs :: "real list list \<Rightarrow> nat \<Rightarrow> error + real list list" where
  "q_dirs qpts q =
    (if q = 0 then
       (case py_index qpts 1 of Inl e \<Rightarrow> Inl e | Inr a \<Rightarrow> Inr [a])
     else if int q = int (length qpts) - 1 then
       (case py_index qpts (- 2) of Inl e \<Rightarrow> Inl e | Inr a \<Rightarrow> Inr [a])
     else
       (case py_index qpts (int q - 1) of Inl e \<Rightarrow> Inl e | Inr a \<Rightarrow>
          (case py_index qpts (int q + 1) of Inl e \<Rightarrow> Inl e | Inr b \<Rightarrow>
             Inr [map uminus a, b])))"

text \<open>
  Lines 495-499: \<open>eigh\<close>, and \<open>zheev\<close> when \<open>eigh\<close> raises \<open>LinAlgError\<close>; the \<open>info\<close>
  that \<open>zheev\<close> returns is bound and not read.
\<close>

definition diagonalise :: "externals \<Rightarrow> complex list list \<Rightarrow> real list \<times> complex list list" where
  "diagonalise ext dyn_mat_corr =
    (case eigh ext dyn_mat_corr of
       Some (evals, evecs) \<Rightarrow> (evals, evecs)
     | None \<Rightarrow> (case zheev ext dyn_mat_corr of (evals, evecs, info) \<Rightarrow> (evals, evecs)))"

text \<open>The arrays the loop over the q-points fills.\<close>

record accum =
  prev_evecs :: "complex list list"
  freqs :: "real list list"
  eigenvecs :: "complex list list list list"
  split_i :: "nat list"
  split_freqs :: "real list list"
  split_eigenvecs :: "complex list list list list"
  dyn_mats :: "complex list list list"
  warnings :: "warning list"

text \<open>
  Lines 486-493: the matrix handed to the eigensolver. The entry of
  \<open>na_corrs = np.array([0])\<close> is \<open>None\<close>: adding the scalar 0 leaves the matrix as it is.
\<close>

definition corrected_dyn_mat ::
  "real list list \<Rightarrow> bool \<Rightarrow> complex list list \<Rightarrow> complex list list
    \<Rightarrow> complex list list option \<Rightarrow> complex list list" where
  "corrected_dyn_mat dyn_mat_weighting precondition prev dyn_mat na_corr =
    (let summed = (case na_corr of None \<Rightarrow> dyn_mat | Some c \<Rightarrow> madd dyn_mat c);
         weighted = map2 (map2 (\<lambda>z w. z * complex_of_real w)) summed dyn_mat_weighting
     in if precondition
        then matmul (matmul (mtranspose (map (map cnj) prev)) weighted) prev
        else weighted)"

text \<open>The body of the loop over \<open>na_corrs\<close> (lines 485-514).\<close>

definition mode_step ::
  "externals \<Rightarrow> real list list \<Rightarrow> bool \<Rightarrow> complex list list \<Rightarrow> nat \<Rightarrow> nat
    \<Rightarrow> complex list list option \<Rightarrow> accum \<Rightarrow> accum" where
  "mode_step ext dyn_mat_weighting precondition dyn_mat q i na_corr st =
    (let dyn_mat_corr = corrected_dyn_mat dyn_mat_weighting precondition (prev_evecs st)
                          dyn_mat na_corr;
         sol = diagonalise ext dyn_mat_corr;
         evecs = reshape_evecs (snd sol);
         evals = signed_freqs (fst sol);
         st1 = st \<lparr> dyn_mats := (dyn_mats st) [q := dyn_mat_corr], prev_evecs := snd sol \<rparr>
     in if i = 0
        then st1 \<lparr> eigenvecs := (eigenvecs st1) [q := evecs], freqs := (freqs st1) [q := evals] \<rparr>
        else st1 \<lparr> split_i := split_i st1 @ [q],
                   split_freqs := split_freqs st1 @ [evals],
                   split_eigenvecs := split_eigenvecs st1 @ [evecs] \<rparr>)"

text \<open>What the set-up phase (lines 377-451) hands to the loop.\<close>

record prepared =
  p_images :: sc_images
  p_fc_img_weighted :: "real list list list"
  p_unique_sc_offsets :: "int list list"
  p_unique_sc_i :: "nat list list"
  p_unique_cell_origins :: "int list list"
  p_unique_cell_i :: "nat list list"
  p_dyn_mat_weighting :: "real list list"
  p_dyn_mat_gamma :: "complex list list option"
  p_ewald :: "ewald option"

text \<open>
  Lines 457-463 (and 447-451): the interpolated matrix, plus the dipole correction when
  \<open>dipole\<close> is set, which is only when the object has \<open>born\<close> and \<open>dielectric\<close>.
\<close>

definition dyn_mat_with_dipole ::
  "externals \<Rightarrow> idata \<Rightarrow> real list list list \<Rightarrow> int list list \<Rightarrow> nat list list \<Rightarrow> int list list
    \<Rightarrow> nat list list \<Rightarrow> sc_images \<Rightarrow> ewald option \<Rightarrow> real list \<Rightarrow> error + complex list list" where
  "dyn_mat_with_dipole ext d fcw uso usi uco uci imgs ew q =
    (let dyn_mat = calculate_dyn_mat (n_ions d) imgs q fcw uso usi uco uci
     in case ew of
          None \<Rightarrow> Inr dyn_mat
        | Some e \<Rightarrow>
           (case calculate_dipole_correction ext d (the (born d)) (the (dielectric d)) e q of
              Inl err \<Rightarrow> Inl err
            | Inr dipole_corr \<Rightarrow> Inr (madd dyn_mat dipole_corr)))"

text \<open>The same with the tables of the set-up phase (lines 457-463).\<close>

definition q_dyn_mat :: "externals \<Rightarrow> idata \<Rightarrow> prepared \<Rightarrow> real list \<Rightarrow> error + complex list list" where
  "q_dyn_mat ext d pr qpt =
     dyn_mat_with_dipole ext d (p_fc_img_weighted pr) (p_unique_sc_offsets pr)
       (p_unique_sc_i pr) (p_unique_cell_origins pr) (p_unique_cell_i pr)
       (p_images pr) (p_ewald pr) qpt"

text \<open>
  Lines 465-466: the reciprocal-space sum-rule correction, when \<open>asr == 'reciprocal'\<close>, with
  the warnings it emits.
\<close>

definition asr_dyn_mat ::
  "externals \<Rightarrow> prepared \<Rightarrow> complex list list \<Rightarrow> complex list list \<times> warning list" where
  "asr_dyn_mat ext pr dyn_mat =
    (case p_dyn_mat_gamma pr of
       None \<Rightarrow> (dyn_mat, [])
     | Some g \<Rightarrow> enforce_reciprocal_asr ext g dyn_mat)"

text \<open>Lines 470-483: the non-analytic corrections of q-point \<open>q\<close>.\<close>

definition na_corrs ::
  "externals \<Rightarrow> idata \<Rightarrow> bool \<Rightarrow> real list list \<Rightarrow> nat \<Rightarrow> error + complex list list option list" where
  "na_corrs ext d splitting qpts q =
    (if splitting \<and> is_gamma ext (qpts ! q)
     then (case q_dirs qpts q of
             Inl e \<Rightarrow> Inl e
           | Inr dirs \<Rightarrow> Inr (map (\<lambda>q_dir. Some (calculate_gamma_correction ext d
                 (the (born d)) (the (dielectric d)) q_dir)) dirs))
     else Inr [None])"

text \<open>Lines 485-514: the loop \<open>for i, na_corr in enumerate(na_corrs)\<close>.\<close>

definition solve_modes ::
  "externals \<Rightarrow> real list list \<Rightarrow> bool \<Rightarrow> complex list list \<Rightarrow> nat
    \<Rightarrow> complex list list option list \<Rightarrow> accum \<Rightarrow> accum" where
  "solve_modes ext dyn_mat_weighting precondition dyn_mat q corrs st =
     fold (\<lambda>(i, na_corr). mode_step ext dyn_mat_weighting precondition dyn_mat q i na_corr)
       (enumerate 0 corrs) st"

text \<open>The body of the loop over the q-points (lines 455-514).\<close>

definition q_step ::
  "externals \<Rightarrow> idata \<Rightarrow> prepared \<Rightarrow> bool \<Rightarrow> bool \<Rightarrow> real list list \<Rightarrow> nat \<Rightarrow> accum
    \<Rightarrow> error + accum" where
  "q_step ext d pr precondition splitting qpts q st =
    (case q_dyn_mat ext d pr (qpts ! q) of
       Inl e \<Rightarrow> Inl e
     | Inr dyn_mat0 \<Rightarrow>
        (let corrected = asr_dyn_mat ext pr dyn_mat0
         in case na_corrs ext d splitting qpts q of
              Inl e \<Rightarrow> Inl e
            | Inr corrs \<Rightarrow>
               Inr (solve_modes ext (p_dyn_mat_weighting pr) precondition (fst corrected) q corrs
                      (st \<lparr> warnings := warnings st @ snd corrected \<rparr>))))"

fun q_loop :: "(nat \<Rightarrow> accum \<Rightarrow> error + accum) \<Rightarrow> nat list \<Rightarrow> accum \<Rightarrow> error + accum" where
  "q_loop body [] st = Inr st"
| "q_loop body (q # qs) st =
    (case body q st of Inl e \<Rightarrow> Inl e | Inr st' \<Rightarrow> q_loop body qs st')"

text \<open>Lines 415-424: the unique offsets per axis and the indices that rebuild the rows.\<close>

definition unique_values :: "int list list \<Rightarrow> int list list" where
  "unique_values rows = map (\<lambda>i. fst (np_unique (map (\<lambda>r. r ! i) rows))) [0..<3]"

definition unique_inverse :: "int list list \<Rightarrow> nat list list" where
  "unique_inverse rows =
     map (\<lambda>k. map (\<lambda>i. snd (np_unique (map (\<lambda>r. r ! i) rows)) ! k) [0..<3]) [0..<length rows]"

text \<open>Lines 436-439: the force constants divided by the image counts, where these are not 0.\<close>

definition fc_img_weighted ::
  "externals \<Rightarrow> nat \<Rightarrow> real list list list \<Rightarrow> sc_images \<Rightarrow> real list list list" where
  "fc_img_weighted ext n fc imgs =
     map (\<lambda>c. map (\<lambda>y. map (\<lambda>x.
        (let cnt = sint (n_sc_images imgs ! c ! (x div 3) ! (y div 3))
         in if cnt \<noteq> 0 then fc ! c ! y ! x / real_of_int cnt else uninit ext c y x))
        [0..<3 * n]) [0..<3 * n]) [0..<length fc]"

text \<open>Lines 442-443.\<close>

definition dyn_mat_weighting :: "idata \<Rightarrow> real list list" where
  "dyn_mat_weighting d =
    (let masses = replicate (3 * n_ions d) (np_repeat (ion_mass d) 3)
     in map (\<lambda>x. map (\<lambda>y. 1 / sqrt (masses ! x ! y * masses ! y ! x))
          [0..<3 * n_ions d]) [0..<3 * n_ions d])"

definition identity :: "nat \<Rightarrow> complex list list" where
  "identity n = map (\<lambda>i. map (\<lambda>j. if i = j then 1 else 0) [0..<n]) [0..<n]"

text \<open>
  The values returned and the attributes set (lines 516-531): the frequencies in the units
  of \<open>self.freqs\<close>, the eigenvectors, the split sets, \<open>self.dyn_mats\<close> and the warnings
  emitted.
\<close>

record phonons =
  r_freqs :: "real list list"
  r_eigenvecs :: "complex list list list list"
  r_split_i :: "nat list"
  r_split_freqs :: "real list list"
  r_split_eigenvecs :: "complex list list list list"
  r_dyn_mats :: "complex list list list"
  r_warnings :: "warning list"

definition collect_results :: "externals \<Rightarrow> accum \<Rightarrow> phonons" where
  "collect_results ext fin =
     \<lparr> r_freqs = map (map (to_freq_units ext)) (freqs fin),
       r_eigenvecs = eigenvecs fin,
       r_split_i = split_i fin,
       r_split_freqs = map (map (to_freq_units ext)) (split_freqs fin),
       r_split_eigenvecs = split_eigenvecs fin,
       r_dyn_mats = dyn_mats fin,
       r_warnings = warnings fin \<rparr>"

text \<open>The arrays as they are before the loop (lines 377, 400-406, 453).\<close>

definition initial_accum :: "nat \<Rightarrow> nat \<Rightarrow> warning list \<Rightarrow> accum" where
  "initial_accum n n_qpts warn0 =
     \<lparr> prev_evecs = identity (3 * n),
       freqs = replicate n_qpts (replicate (3 * n) 0),
       eigenvecs = replicate n_qpts (replicate (3 * n) (replicate n (replicate 3 0))),
       split_i = [], split_freqs = [], split_eigenvecs = [],
       dyn_mats = replicate n_qpts (replicate (3 * n) (replicate (3 * n) 0)),
       warnings = warn0 \<rparr>"

text \<open>
  The set-up phase (lines 377-451): the tables handed to the loop and the warnings emitted
  so far. \<open>dipole\<close> is the flag after lines 385-386.
\<close>

definition prepare ::
  "externals \<Rightarrow> idata \<Rightarrow> asr_mode \<Rightarrow> bool \<Rightarrow> error + prepared \<times> warning list" where
  "prepare ext d asr dipole =
    (case (if asr = AsrRealspace then enforce_realspace_asr ext d
           else Inr (force_constants d, [])) of
       Inl e \<Rightarrow> Inl e
     | Inr (fc, warn0) \<Rightarrow>
    (case (if dipole then map_sum id Some (dipole_correction_init ext d) else Inr None) of
       Inl e \<Rightarrow> Inl e
     | Inr ew \<Rightarrow>
    (let n = n_ions d;
         sc_offsets = map (\<lambda>r. vecmat r (sc_matrix d)) (sc_image_r 2);
         uso = unique_values sc_offsets;
         usi = unique_inverse sc_offsets;
         uco = unique_values (cell_origins d);
         uci = unique_inverse (cell_origins d)
     in case calculate_supercell_images d 2 of
       Inl e \<Rightarrow> Inl e
     | Inr imgs \<Rightarrow>
    (let fcw = fc_img_weighted ext n fc imgs
     in case (if asr = AsrReciprocal
              then map_sum id Some (dyn_mat_with_dipole ext d fcw uso usi uco uci imgs ew [0, 0, 0])
              else Inr None) of
       Inl e \<Rightarrow> Inl e
     | Inr dyn_mat_gamma \<Rightarrow>
         Inr (\<lparr> p_images = imgs, p_fc_img_weighted = fcw, p_unique_sc_offsets = uso,
                p_unique_sc_i = usi, p_unique_cell_origins = uco, p_unique_cell_i = uci,
                p_dyn_mat_weighting = dyn_mat_weighting d, p_dyn_mat_gamma = dyn_mat_gamma,
                p_ewald = ew \<rparr>, warn0)))))"

definition calculate_fine_phonons ::
  "externals \<Rightarrow> idata \<Rightarrow> real list list \<Rightarrow> asr_mode \<Rightarrow> bool \<Rightarrow> bool \<Rightarrow> bool \<Rightarrow> error + phonons" where
  "calculate_fine_phonons ext d qpts asr precondition dipole splitting =
    (let dipole1 = (dipole \<and> born d \<noteq> None \<and> dielectric d \<noteq> None);
         splitting1 = (splitting \<and> dipole1)
     in case prepare ext d asr dipole1 of
          Inl e \<Rightarrow> Inl e
        | Inr (pr, warn0) \<Rightarrow>
           (case q_loop (q_step ext d pr precondition splitting1 qpts) [0..<length qpts]
                   (initial_accum (n_ions d) (length qpts) warn0) of
              Inl e \<Rightarrow> Inl e
            | Inr fin \<Rightarrow> Inr (collect_results ext fin)))"

subsection \<open>The solver calls of a run\<close>

text \<open>
  What the loop computes, written without the arrays it fills: the solutions
  \<open>(evals, evecs)\<close> of the matrices handed to the solver for the corrections \<open>corrs\<close> of one
  q-point, each preconditioned by the eigenvectors of the solution before it.
\<close>

fun mode_solutions ::
  "externals \<Rightarrow> real list list \<Rightarrow> bool \<Rightarrow> complex list list \<Rightarrow> complex list list
    \<Rightarrow> complex list list option list \<Rightarrow> (real list \<times> complex list list) list" where
  "mode_solutions ext wt p dyn_mat prev [] = []"
| "mode_solutions ext wt p dyn_mat prev (na_corr # rest) =
     diagonalise ext (corrected_dyn_mat wt p prev dyn_mat na_corr)
     # mode_solutions ext wt p dyn_mat
         (snd (diagonalise ext (corrected_dyn_mat wt p prev dyn_mat na_corr))) rest"

text \<open>The matrix \<open>dyn_mat\<close> of q-point \<open>qpt\<close> after line 466, and its corrections.\<close>

definition q_matrix :: "externals \<Rightarrow> idata \<Rightarrow> prepared \<Rightarrow> real list \<Rightarrow> complex list list" where
  "q_matrix ext d pr qpt = fst (asr_dyn_mat ext pr (projr (q_dyn_mat ext d pr qpt)))"

definition q_corrs ::
  "externals \<Rightarrow> idata \<Rightarrow> bool \<Rightarrow> real list list \<Rightarrow> nat \<Rightarrow> complex list list option list" where
  "q_corrs ext d s qpts q = projr (na_corrs ext d s qpts q)"

text \<open>
  \<open>prev_before \<dots> q\<close> is \<open>prev_evecs\<close> when the loop reaches q-point \<open>q\<close>: the identity at
  first, then the eigenvectors of the last solution of the q-point before.
\<close>

fun prev_before ::
  "externals \<Rightarrow> idata \<Rightarrow> prepared \<Rightarrow> bool \<Rightarrow> bool \<Rightarrow> real list list \<Rightarrow> nat \<Rightarrow> complex list list" where
  "prev_before ext d pr p s qpts 0 = identity (3 * n_ions d)"
| "prev_before ext d pr p s qpts (Suc q) =
     snd (last (mode_solutions ext (p_dyn_mat_weighting pr) p (q_matrix ext d pr (qpts ! q))
                  (prev_before ext d pr p s qpts q) (q_corrs ext d s qpts q)))"

definition q_solutions ::
  "externals \<Rightarrow> idata \<Rightarrow> prepared \<Rightarrow> bool \<Rightarrow> bool \<Rightarrow> real list list \<Rightarrow> nat
    \<Rightarrow> (real list \<times> complex list list) list" where
  "q_solutions ext d pr p s qpts q =
     mode_solutions ext (p_dyn_mat_weighting pr) p (q_matrix ext d pr (qpts ! q))
       (prev_before ext d pr p s qpts q) (q_corrs ext d s qpts q)"

text \<open>The tables of a run whose set-up phase succeeds, and its \<open>splitting\<close> flag after line 388.\<close>

definition set_up :: "externals \<Rightarrow> idata \<Rightarrow> asr_mode \<Rightarrow> bool \<Rightarrow> prepared" where
  "set_up ext d asr dipole =
     fst (projr (prepare ext d asr (dipole \<and> born d \<noteq> None \<and> dielectric d \<noteq> None)))"

definition splitting_on :: "idata \<Rightarrow> bool \<Rightarrow> bool \<Rightarrow> bool" where
  "splitting_on d dipole splitting \<longleftrightarrow> splitting \<and> dipole \<and> born d \<noteq> None \<and> dielectric d \<noteq> None"

subsection \<open>Concrete inputs\<close>

text \<open>
  The q-points at which a non-analytic correction is recorded as an extra mode set: the
  zone-centre points that are neither first nor last in the list (\<open>s\<close> is the effective
  \<open>splitting\<close> flag).
\<close>

definition is_split :: "externals \<Rightarrow> bool \<Rightarrow> real list list \<Rightarrow> nat \<Rightarrow> bool" where
  "is_split ext s qpts q \<longleftrightarrow> s \<and> is_gamma ext (qpts ! q) \<and> 0 < q \<and> q + 1 < length qpts"

text \<open>
  A cubic cell with one ion, no forces, vanishing Born charges and unit dielectric tensor:
  every matrix the interpolation builds for it is zero.
\<close>

definition cubic_cell :: idata where
  "cubic_cell = \<lparr> n_ions = 1, cell_vec = [[1, 0, 0], [0, 1, 0], [0, 0, 1]],
     ion_r = [[0, 0, 0]], ion_mass = [1], n_cells_in_sc = 1,
     sc_matrix = [[1, 0, 0], [0, 1, 0], [0, 0, 1]], cell_origins = [[0, 0, 0]],
     force_constants = [[[0, 0, 0], [0, 0, 0], [0, 0, 0]]],
     born = Some [[[0, 0, 0], [0, 0, 0], [0, 0, 0]]],
     dielectric = Some [[1, 0, 0], [0, 1, 0], [0, 0, 1]] \<rparr>"

text \<open>
  Library functions that are right on the zero matrix: the solvers return the eigenvalues 0
  with the unit vectors, \<open>zheev\<close> with the status \<open>info\<close>; the zone centre is the zero
  vector, and the Ewald tables are empty.
\<close>

definition zero_solvers :: "int \<Rightarrow> externals" where
  "zero_solvers info = \<lparr>
     eigh = (\<lambda>M. Some (replicate (length M) 0, identity (length M))),
     eigh_real = (\<lambda>M. Some (replicate (length M) 0,
        map (\<lambda>i. map (\<lambda>j. if i = j then 1 else 0) [0..<length M]) [0..<length M])),
     zheev = (\<lambda>M. (replicate (length M) 0, identity (length M), info)),
     is_gamma = (\<lambda>q. q = [0, 0, 0]),
     reciprocal_lattice = (\<lambda>c. map (map (\<lambda>x. 2 * pi * x)) c),
     uninit = (\<lambda>c y x. 0),
     to_freq_units = (\<lambda>x. x),
     dipole_correction_init = (\<lambda>d. Inr \<lparr> eta = 1, max_cells_abc = [1, 1, 1],
        max_cells_hkl = [1, 1, 1], recip_cutoff = 1,
        H_ab = replicate (n_ions d) (replicate (n_ions d) []),
        cells_in_range = replicate (n_ions d) (replicate (n_ions d) []),
        gvec_phases = [], gvecs_cart = [],
        dipole_q0 = replicate (n_ions d) (replicate 3 (replicate 3 0)) \<rparr>),
     non_finite = (\<lambda>q x y. 0) \<rparr>"

text \<open>The same library with a primary solver that never converges.\<close>

definition failing_eigh :: "int \<Rightarrow> externals" where
  "failing_eigh info = (zero_solvers info) \<lparr> eigh := (\<lambda>M. None) \<rparr>"

text \<open>
  The same cell with the force constants \<open>diag(-4, 0, 9)\<close>, and a library whose primary
  solver reports the eigenvalues \<open>-4, 0, 9\<close> with the unit vectors.
\<close>

definition soft_cell :: idata where
  "soft_cell = cubic_cell \<lparr> force_constants := [[[- 4, 0, 0], [0, 0, 0], [0, 0, 9]]] \<rparr>"

definition soft_mode_solvers :: externals where
  "soft_mode_solvers = (zero_solvers 0)
     \<lparr> eigh := (\<lambda>M. Some ([- 4, 0, 9], [[1, 0, 0], [0, 1, 0], [0, 0, 1]])) \<rparr>"

section \<open>Theorems\<close>

subsection \<open>The loop and the solver calls\<close>

lemma q_loop_append:
  "q_loop body (xs @ ys) st =
     (case q_loop body xs st of Inl e \<Rightarrow> Inl e | Inr st' \<Rightarrow> q_loop body ys st')"
  by (induction xs arbitrary: st) (auto split: sum.splits)

lemma q_loop_Suc:
  "q_loop body [0..<Suc k] st =
     (case q_loop body [0..<k] st of Inl e \<Rightarrow> Inl e | Inr st' \<Rightarrow> body k st')"
  by (simp add: q_loop_append split: sum.splits)

lemma q_loop_prefix:
  assumes "q_loop body [0..<n] st = Inr fin" "k \<le> n"
  shows "\<exists>stk. q_loop body [0..<k] st = Inr stk"
proof -
  have "[0..<n] = [0..<k] @ [k..<n]" using assms(2) by (metis le_add_diff_inverse upt_add_eq_append zero_le)
  then show ?thesis using assms(1) by (auto simp: q_loop_append split: sum.splits)
qed

text \<open>The fields of the state the loop over the corrections leaves.\<close>

lemma mode_step_fields:
  "prev_evecs (mode_step ext wt p dm q i na st) =
      snd (diagonalise ext (corrected_dyn_mat wt p (prev_evecs st) dm na))"
  "warnings (mode_step ext wt p dm q i na st) = warnings st"
  "freqs (mode_step ext wt p dm q i na st) = (if i = 0
      then (freqs st) [q := signed_freqs (fst (diagonalise ext
              (corrected_dyn_mat wt p (prev_evecs st) dm na)))]
      else freqs st)"
  "eigenvecs (mode_step ext wt p dm q i na st) = (if i = 0
      then (eigenvecs st) [q := reshape_evecs (snd (diagonalise ext
              (corrected_dyn_mat wt p (prev_evecs st) dm na)))]
      else eigenvecs st)"
  "split_i (mode_step ext wt p dm q i na st) = (if i = 0 then split_i st else split_i st @ [q])"
  "split_freqs (mode_step ext wt p dm q i na st) = (if i = 0 then split_freqs st
      else split_freqs st @ [signed_freqs (fst (diagonalise ext
              (corrected_dyn_mat wt p (prev_evecs st) dm na)))])"
  "split_eigenvecs (mode_step ext wt p dm q i na st) = (if i = 0 then split_eigenvecs st
      else split_eigenvecs st @ [reshape_evecs (snd (diagonalise ext
              (corrected_dyn_mat wt p (prev_evecs st) dm na)))])"
  by (simp_all add: mode_step_def Let_def)

lemma fold_modes_later:
  fixes ext wt p dm q
  assumes "0 < k"
  defines "f \<equiv> (\<lambda>(i, na). mode_step ext wt p dm q i na)"
  shows "freqs (fold f (enumerate k nas) st) = freqs st
    \<and> eigenvecs (fold f (enumerate k nas) st) = eigenvecs st
    \<and> warnings (fold f (enumerate k nas) st) = warnings st
    \<and> split_i (fold f (enumerate k nas) st) = split_i st @ replicate (length nas) q
    \<and> split_freqs (fold f (enumerate k nas) st) = split_freqs st @
         map (\<lambda>sol. signed_freqs (fst sol)) (mode_solutions ext wt p dm (prev_evecs st) nas)
    \<and> split_eigenvecs (fold f (enumerate k nas) st) = split_eigenvecs st @
         map (\<lambda>sol. reshape_evecs (snd sol)) (mode_solutions ext wt p dm (prev_evecs st) nas)
    \<and> prev_evecs (fold f (enumerate k nas) st) =
         (if nas = [] then prev_evecs st
          else snd (last (mode_solutions ext wt p dm (prev_evecs st) nas)))"
  using assms(1)
proof (induction nas arbitrary: k st)
  case Nil
  then show ?case by simp
next
  case (Cons na nas)
  let ?st1 = "mode_step ext wt p dm q k na st"
  have step: "fold f (enumerate k (na # nas)) st = fold f (enumerate (Suc k) nas) ?st1"
    by (simp add: f_def)
  have k: "k \<noteq> 0" using Cons.prems by simp
  have IH: "freqs (fold f (enumerate (Suc k) nas) ?st1) = freqs ?st1
    \<and> eigenvecs (fold f (enumerate (Suc k) nas) ?st1) = eigenvecs ?st1
    \<and> warnings (fold f (enumerate (Suc k) nas) ?st1) = warnings ?st1
    \<and> split_i (fold f (enumerate (Suc k) nas) ?st1) = split_i ?st1 @ replicate (length nas) q
    \<and> split_freqs (fold f (enumerate (Suc k) nas) ?st1) = split_freqs ?st1 @
         map (\<lambda>sol. signed_freqs (fst sol)) (mode_solutions ext wt p dm (prev_evecs ?st1) nas)
    \<and> split_eigenvecs (fold f (enumerate (Suc k) nas) ?st1) = split_eigenvecs ?st1 @
         map (\<lambda>sol. reshape_evecs (snd sol)) (mode_solutions ext wt p dm (prev_evecs ?st1) nas)
    \<and> prev_evecs (fold f (enumerate (Suc k) nas) ?st1) =
         (if nas = [] then prev_evecs ?st1
          else snd (last (mode_solutions ext wt p dm (prev_evecs ?st1) nas)))"
    by (rule Cons.IH) simp
  have nonempty: "nas \<noteq> [] \<Longrightarrow> mode_solutions ext wt p dm pv nas \<noteq> []" for pv
    by (cases nas) auto
  show ?case
    unfolding step using IH k nonempty
    by (auto simp: mode_step_fields replicate_append_same)
qed

lemma solve_modes_fields:
  fixes ext wt p dm q st nas
  assumes "nas \<noteq> []"
  defines "sols \<equiv> mode_solutions ext wt p dm (prev_evecs st) nas"
  defines "st' \<equiv> solve_modes ext wt p dm q nas st"
  shows "freqs st' = (freqs st) [q := signed_freqs (fst (hd sols))]"
    and "eigenvecs st' = (eigenvecs st) [q := reshape_evecs (snd (hd sols))]"
    and "warnings st' = warnings st"
    and "split_i st' = split_i st @ replicate (length nas - 1) q"
    and "split_freqs st' = split_freqs st @ map (\<lambda>sol. signed_freqs (fst sol)) (tl sols)"
    and "split_eigenvecs st' = split_eigenvecs st @ map (\<lambda>sol. reshape_evecs (snd sol)) (tl sols)"
    and "prev_evecs st' = snd (last sols)"
proof -
  obtain na rest where nas: "nas = na # rest" using assms(1) by (cases nas) auto
  let ?f = "(\<lambda>(i, na). mode_step ext wt p dm q i na)"
  let ?st1 = "mode_step ext wt p dm q 0 na st"
  have st': "st' = fold ?f (enumerate (Suc 0) rest) ?st1"
    by (simp add: st'_def solve_modes_def nas)
  have L: "freqs (fold ?f (enumerate (Suc 0) rest) ?st1) = freqs ?st1
    \<and> eigenvecs (fold ?f (enumerate (Suc 0) rest) ?st1) = eigenvecs ?st1
    \<and> warnings (fold ?f (enumerate (Suc 0) rest) ?st1) = warnings ?st1
    \<and> split_i (fold ?f (enumerate (Suc 0) rest) ?st1) = split_i ?st1 @ replicate (length rest) q
    \<and> split_freqs (fold ?f (enumerate (Suc 0) rest) ?st1) = split_freqs ?st1 @
         map (\<lambda>sol. signed_freqs (fst sol)) (mode_solutions ext wt p dm (prev_evecs ?st1) rest)
    \<and> split_eigenvecs (fold ?f (enumerate (Suc 0) rest) ?st1) = split_eigenvecs ?st1 @
         map (\<lambda>sol. reshape_evecs (snd sol)) (mode_solutions ext wt p dm (prev_evecs ?st1) rest)
    \<and> prev_evecs (fold ?f (enumerate (Suc 0) rest) ?st1) =
         (if rest = [] then prev_evecs ?st1
          else snd (last (mode_solutions ext wt p dm (prev_evecs ?st1) rest)))"
    by (rule fold_modes_later) simp
  show "freqs st' = (freqs st) [q := signed_freqs (fst (hd sols))]"
    unfolding st' using L by (simp add: sols_def nas mode_step_fields)
  show "eigenvecs st' = (eigenvecs st) [q := reshape_evecs (snd (hd sols))]"
    unfolding st' using L by (simp add: sols_def nas mode_step_fields)
  show "warnings st' = warnings st"
    unfolding st' using L by (simp add: sols_def nas mode_step_fields)
  show "split_i st' = split_i st @ replicate (length nas - 1) q"
    unfolding st' using L by (simp add: sols_def nas mode_step_fields)
  show "split_freqs st' = split_freqs st @ map (\<lambda>sol. signed_freqs (fst sol)) (tl sols)"
    unfolding st' using L by (simp add: sols_def nas mode_step_fields)
  show "split_eigenvecs st' = split_eigenvecs st @ map (\<lambda>sol. reshape_evecs (snd sol)) (tl sols)"
    unfolding st' using L by (simp add: sols_def nas mode_step_fields)
  show "prev_evecs st' = snd (last sols)"
    unfolding st' using L by (cases rest) (simp_all add: sols_def nas mode_step_fields)
qed


lemma na_corrs_nonempty: "na_corrs ext d s qpts q = Inr corrs \<Longrightarrow> corrs \<noteq> []"
  by (auto simp: na_corrs_def q_dirs_def split: if_splits sum.splits)

lemma q_step_fields:
  fixes ext d pr p s qpts q st
  assumes "q_step ext d pr p s qpts q st = Inr st'"
  defines "sols \<equiv> mode_solutions ext (p_dyn_mat_weighting pr) p (q_matrix ext d pr (qpts ! q))
                     (prev_evecs st) (q_corrs ext d s qpts q)"
  shows "freqs st' = (freqs st) [q := signed_freqs (fst (hd sols))]"
    and "eigenvecs st' = (eigenvecs st) [q := reshape_evecs (snd (hd sols))]"
    and "warnings st' = warnings st @ snd (asr_dyn_mat ext pr (projr (q_dyn_mat ext d pr (qpts ! q))))"
    and "split_i st' = split_i st @ replicate (length (q_corrs ext d s qpts q) - 1) q"
    and "split_freqs st' = split_freqs st @ map (\<lambda>sol. signed_freqs (fst sol)) (tl sols)"
    and "split_eigenvecs st' = split_eigenvecs st @ map (\<lambda>sol. reshape_evecs (snd sol)) (tl sols)"
    and "prev_evecs st' = snd (last sols)"
proof -
  from assms(1) obtain dm0 corrs where dm: "q_dyn_mat ext d pr (qpts ! q) = Inr dm0"
    and corrs: "na_corrs ext d s qpts q = Inr corrs"
    and st': "st' = solve_modes ext (p_dyn_mat_weighting pr) p (fst (asr_dyn_mat ext pr dm0)) q corrs
                 (st \<lparr> warnings := warnings st @ snd (asr_dyn_mat ext pr dm0) \<rparr>)"
    by (auto simp: q_step_def Let_def split: sum.splits)
  have ne: "corrs \<noteq> []" using na_corrs_nonempty [OF corrs] .
  have qm: "q_matrix ext d pr (qpts ! q) = fst (asr_dyn_mat ext pr dm0)"
    by (simp add: q_matrix_def dm)
  have qc: "q_corrs ext d s qpts q = corrs" by (simp add: q_corrs_def corrs)
  note F = solve_modes_fields [where nas = corrs and ext = ext and wt = "p_dyn_mat_weighting pr"
      and p = p and dm = "fst (asr_dyn_mat ext pr dm0)" and q = q
      and st = "st \<lparr> warnings := warnings st @ snd (asr_dyn_mat ext pr dm0) \<rparr>", OF ne]
  show "freqs st' = (freqs st) [q := signed_freqs (fst (hd sols))]"
    unfolding st' sols_def qm qc using F(1) by simp
  show "eigenvecs st' = (eigenvecs st) [q := reshape_evecs (snd (hd sols))]"
    unfolding st' sols_def qm qc using F(2) by simp
  show "warnings st' = warnings st @ snd (asr_dyn_mat ext pr (projr (q_dyn_mat ext d pr (qpts ! q))))"
    unfolding st' dm using F(3) by simp
  show "split_i st' = split_i st @ replicate (length (q_corrs ext d s qpts q) - 1) q"
    unfolding st' sols_def qm qc using F(4) by simp
  show "split_freqs st' = split_freqs st @ map (\<lambda>sol. signed_freqs (fst sol)) (tl sols)"
    unfolding st' sols_def qm qc using F(5) by simp
  show "split_eigenvecs st' = split_eigenvecs st @ map (\<lambda>sol. reshape_evecs (snd sol)) (tl sols)"
    unfolding st' sols_def qm qc using F(6) by simp
  show "prev_evecs st' = snd (last sols)"
    unfolding st' sols_def qm qc using F(7) by simp
qed

text \<open>The state of the loop when it reaches q-point \<open>k\<close>.\<close>

lemma q_loop_state:
  fixes ext d pr p s qpts
  defines "sol \<equiv> q_solutions ext d pr p s qpts"
  assumes "q_loop (q_step ext d pr p s qpts) [0..<k] st0 = Inr stk"
    and "prev_evecs st0 = identity (3 * n_ions d)"
  shows "prev_evecs stk = prev_before ext d pr p s qpts k
    \<and> length (freqs stk) = length (freqs st0)
    \<and> length (eigenvecs stk) = length (eigenvecs st0)
    \<and> (\<forall>q<k. q < length (freqs st0) \<longrightarrow> freqs stk ! q = signed_freqs (fst (hd (sol q))))
    \<and> (\<forall>q<k. q < length (eigenvecs st0) \<longrightarrow> eigenvecs stk ! q = reshape_evecs (snd (hd (sol q))))
    \<and> split_i stk = split_i st0 @
          concat (map (\<lambda>q. replicate (length (q_corrs ext d s qpts q) - 1) q) [0..<k])
    \<and> split_freqs stk = split_freqs st0 @
          concat (map (\<lambda>q. map (\<lambda>sol. signed_freqs (fst sol)) (tl (sol q))) [0..<k])
    \<and> split_eigenvecs stk = split_eigenvecs st0 @
          concat (map (\<lambda>q. map (\<lambda>sol. reshape_evecs (snd sol)) (tl (sol q))) [0..<k])
    \<and> warnings stk = warnings st0 @
          concat (map (\<lambda>q. snd (asr_dyn_mat ext pr (projr (q_dyn_mat ext d pr (qpts ! q))))) [0..<k])"
  using assms(2)
proof (induction k arbitrary: stk)
  case 0
  then show ?case using assms(3) by simp
next
  case (Suc k)
  from Suc.prems obtain st1 where l: "q_loop (q_step ext d pr p s qpts) [0..<k] st0 = Inr st1"
    and b: "q_step ext d pr p s qpts k st1 = Inr stk"
    by (auto simp: q_loop_append split: sum.splits)
  note IH = Suc.IH [OF l]
  note F = q_step_fields [OF b]
  have pv: "prev_evecs st1 = prev_before ext d pr p s qpts k" using IH by simp
  have sk: "mode_solutions ext (p_dyn_mat_weighting pr) p (q_matrix ext d pr (qpts ! k))
                     (prev_evecs st1) (q_corrs ext d s qpts k) = sol k"
    by (simp add: sol_def q_solutions_def pv)
  show ?case
    using IH unfolding F sk
    by (auto simp: less_Suc_eq nth_list_update sol_def q_solutions_def)
qed

lemma images_ok:
  "inv3 (mtranspose (of_int_mat (sc_matrix d))) = Some iv \<Longrightarrow>
   \<exists>imgs. calculate_supercell_images d lm = Inr imgs"
  by (simp add: calculate_supercell_images_def Let_def)

lemma images_err:
  "calculate_supercell_images d lm = Inl e \<Longrightarrow>
     e = LinAlgError \<and> inv3 (mtranspose (of_int_mat (sc_matrix d))) = None"
  by (auto simp: calculate_supercell_images_def Let_def split: option.splits)

lemma realspace_ok:
  "inv3 (mtranspose (of_int_mat (sc_matrix d))) = Some iv \<Longrightarrow>
   \<exists>r. enforce_realspace_asr ext d = Inr r"
  by (auto simp: enforce_realspace_asr_def Let_def split: option.splits sum.splits prod.splits)

lemma realspace_err:
  "enforce_realspace_asr ext d = Inl e \<Longrightarrow>
     e = LinAlgError \<and> inv3 (mtranspose (of_int_mat (sc_matrix d))) = None"
  by (auto simp: enforce_realspace_asr_def Let_def split: option.splits sum.splits prod.splits)

lemma inv3_some: "det3 M \<noteq> 0 \<Longrightarrow> \<exists>iv. inv3 M = Some iv"
  by (simp add: inv3_def Let_def)

lemma dipole_ok:
  "0 < det3 diel \<Longrightarrow> \<exists>c. calculate_dipole_correction ext d brn diel ew q = Inr c"
  using inv3_some [of diel]
  by (auto simp: calculate_dipole_correction_def split: option.splits)

lemma dipole_err:
  "calculate_dipole_correction ext d brn diel ew q = Inl e \<Longrightarrow> det3 diel \<le> 0"
  by (auto simp: calculate_dipole_correction_def inv3_def Let_def split: option.splits if_splits)

lemma q_dirs_single: "q_dirs [q0] 0 = Inl IndexError"
  by (simp add: q_dirs_def py_index_def)

lemma q_dirs_first: "2 \<le> length qpts \<Longrightarrow> q_dirs qpts 0 = Inr [qpts ! 1]"
  by (simp add: q_dirs_def py_index_def py_nth_def)

lemma q_dirs_last:
  "2 \<le> length qpts \<Longrightarrow> q_dirs qpts (length qpts - 1) = Inr [qpts ! (length qpts - 2)]"
  by (auto simp: q_dirs_def py_index_def py_nth_def nat_diff_distrib' intro: arg_cong [where f="nth qpts"])

lemma q_dirs_interior:
  "0 < q \<Longrightarrow> q + 1 < length qpts \<Longrightarrow>
     q_dirs qpts q = Inr [map uminus (qpts ! (q - 1)), qpts ! (q + 1)]"
  by (auto simp: q_dirs_def py_index_def py_nth_def nat_diff_distrib' nat_add_distrib)

lemma q_dirs_ok:
  "2 \<le> length qpts \<Longrightarrow> q < length qpts \<Longrightarrow> \<exists>dirs. q_dirs qpts q = Inr dirs"
  by (auto simp: q_dirs_def py_index_def)

lemma q_dirs_short: "q_dirs qpts q = Inr dirs \<Longrightarrow> q < length qpts \<Longrightarrow> 2 \<le> length qpts"
  by (auto simp: q_dirs_def py_index_def split: if_splits sum.splits)

lemma q_loop_ok:
  assumes "\<And>q st. q \<in> set qs \<Longrightarrow> \<exists>st'. body q st = Inr st'"
  shows "\<exists>fin. q_loop body qs st = Inr fin"
  using assms
proof (induction qs arbitrary: st)
  case Nil
  then show ?case by simp
next
  case (Cons q qs)
  then obtain st1 where "body q st = Inr st1" by (meson list.set_intros(1))
  then show ?case using Cons by simp
qed

lemma dyn_mat_with_dipole_ok:
  "(ew \<noteq> None \<longrightarrow> 0 < det3 (the (dielectric d))) \<Longrightarrow>
     \<exists>m. dyn_mat_with_dipole ext d fcw uso usi uco uci imgs ew q = Inr m"
  using dipole_ok [of "the (dielectric d)" ext d "the (born d)" "the ew" q]
  by (auto simp: dyn_mat_with_dipole_def Let_def split: option.splits)

lemma q_dyn_mat_ok:
  "(p_ewald pr \<noteq> None \<longrightarrow> 0 < det3 (the (dielectric d))) \<Longrightarrow>
     \<exists>m. q_dyn_mat ext d pr q = Inr m"
  unfolding q_dyn_mat_def by (rule dyn_mat_with_dipole_ok)

lemma na_corrs_ok:
  assumes "s \<and> is_gamma ext (qpts ! q) \<longrightarrow> 2 \<le> length qpts" and "q < length qpts"
  shows "\<exists>corrs. na_corrs ext d s qpts q = Inr corrs"
proof (cases "s \<and> is_gamma ext (qpts ! q)")
  case True
  then obtain dirs where "q_dirs qpts q = Inr dirs" using q_dirs_ok assms by blast
  then show ?thesis using True by (simp add: na_corrs_def)
next
  case False
  then show ?thesis by (auto simp: na_corrs_def)
qed

lemma q_step_ok:
  assumes "p_ewald pr \<noteq> None \<longrightarrow> 0 < det3 (the (dielectric d))"
    and "s \<and> is_gamma ext (qpts ! q) \<longrightarrow> 2 \<le> length qpts" and "q < length qpts"
  shows "\<exists>st'. q_step ext d pr p s qpts q st = Inr st'"
proof -
  obtain m where m: "q_dyn_mat ext d pr (qpts ! q) = Inr m"
    using q_dyn_mat_ok [OF assms(1)] by blast
  obtain corrs where c: "na_corrs ext d s qpts q = Inr corrs"
    using na_corrs_ok [OF assms(2,3)] by blast
  show ?thesis by (simp add: q_step_def Let_def m c)
qed

lemma q_step_index_error:
  assumes "p_ewald pr \<noteq> None \<longrightarrow> 0 < det3 (the (dielectric d))"
    and "s" "is_gamma ext q0"
  shows "q_step ext d pr p s [q0] 0 st = Inl IndexError"
proof -
  obtain m where m: "q_dyn_mat ext d pr ([q0] ! 0) = Inr m"
    using q_dyn_mat_ok [OF assms(1)] by blast
  have "na_corrs ext d s [q0] 0 = Inl IndexError"
    using assms(2,3) by (simp add: na_corrs_def q_dirs_single)
  then show ?thesis using m by (simp add: q_step_def Let_def)
qed

text \<open>The set-up phase.\<close>

lemma map_sum_Some: "map_sum id Some x = Inr g \<Longrightarrow> \<exists>m. g = Some m"
  by (cases x) auto

lemma prepare_ok:
  assumes "det3 (mtranspose (of_int_mat (sc_matrix d))) \<noteq> 0"
    and "dip \<longrightarrow> (\<exists>ew. dipole_correction_init ext d = Inr ew) \<and> 0 < det3 (the (dielectric d))"
  shows "\<exists>pr w0. prepare ext d asr dip = Inr (pr, w0)"
proof -
  obtain iv where iv: "inv3 (mtranspose (of_int_mat (sc_matrix d))) = Some iv"
    using inv3_some [OF assms(1)] by blast
  obtain fc w0 where fc: "(if asr = AsrRealspace then enforce_realspace_asr ext d
           else Inr (force_constants d, [])) = Inr (fc, w0)"
    using realspace_ok [OF iv, of ext] by (cases "asr = AsrRealspace") auto
  obtain ew where ew: "(if dip then map_sum id Some (dipole_correction_init ext d) else Inr None) = Inr ew"
    and ewd: "ew \<noteq> None \<longrightarrow> 0 < det3 (the (dielectric d))"
    using assms(2) by (cases dip) auto
  obtain imgs where imgs: "calculate_supercell_images d 2 = Inr imgs"
    using images_ok [OF iv] by blast
  define fcw where "fcw = fc_img_weighted ext (n_ions d) fc imgs"
  define sco where "sco = map (\<lambda>r. vecmat r (sc_matrix d)) (sc_image_r 2)"
  obtain g where g: "(if asr = AsrReciprocal
              then map_sum id Some (dyn_mat_with_dipole ext d fcw (unique_values sco)
                 (unique_inverse sco) (unique_values (cell_origins d))
                 (unique_inverse (cell_origins d)) imgs ew [0, 0, 0])
              else Inr None) = Inr g"
    using dyn_mat_with_dipole_ok [OF ewd, of ext fcw "unique_values sco" "unique_inverse sco"
        "unique_values (cell_origins d)" "unique_inverse (cell_origins d)" imgs "[0, 0, 0]"]
    by (cases "asr = AsrReciprocal") auto
  show ?thesis
    unfolding prepare_def
    by (simp only: Let_def fc ew imgs g [unfolded fcw_def sco_def] sum.case prod.case) blast
qed

lemma prepare_fields:
  assumes "prepare ext d asr dip = Inr (pr, w0)"
  shows "p_dyn_mat_weighting pr = dyn_mat_weighting d"
    and "p_ewald pr \<noteq> None \<longleftrightarrow> dip"
    and "p_dyn_mat_gamma pr \<noteq> None \<longleftrightarrow> asr = AsrReciprocal"
    and "asr \<noteq> AsrRealspace \<Longrightarrow> w0 = []"
proof -
  from assms obtain fc ew imgs g where
    fc: "(if asr = AsrRealspace then enforce_realspace_asr ext d
           else Inr (force_constants d, [])) = Inr (fc, w0)"
    and ew: "(if dip then map_sum id Some (dipole_correction_init ext d) else Inr None) = Inr ew"
    and g: "(if asr = AsrReciprocal
              then map_sum id Some (dyn_mat_with_dipole ext d
                 (fc_img_weighted ext (n_ions d) fc imgs)
                 (unique_values (map (\<lambda>r. vecmat r (sc_matrix d)) (sc_image_r 2)))
                 (unique_inverse (map (\<lambda>r. vecmat r (sc_matrix d)) (sc_image_r 2)))
                 (unique_values (cell_origins d))
                 (unique_inverse (cell_origins d)) imgs ew [0, 0, 0])
              else Inr None) = Inr g"
    and pr: "p_dyn_mat_weighting pr = dyn_mat_weighting d" "p_ewald pr = ew" "p_dyn_mat_gamma pr = g"
    unfolding prepare_def Let_def
    by (auto split: sum.splits prod.splits)
  show "p_dyn_mat_weighting pr = dyn_mat_weighting d" using pr by simp
  show "p_ewald pr \<noteq> None \<longleftrightarrow> dip" using pr ew by (cases dip; cases "dipole_correction_init ext d") auto
  show "p_dyn_mat_gamma pr \<noteq> None \<longleftrightarrow> asr = AsrReciprocal"
  proof (cases "asr = AsrReciprocal")
    case True
    then obtain m where "g = Some m" using g map_sum_Some by fastforce
    then show ?thesis using True pr by simp
  next
    case False
    then show ?thesis using g pr by auto
  qed
  show "asr \<noteq> AsrRealspace \<Longrightarrow> w0 = []" using fc by auto
qed

text \<open>A run that returns is the set-up phase, the loop and the unit conversion.\<close>

lemma run_unfold:
  assumes "calculate_fine_phonons ext d qpts asr p dip spl = Inr r"
  shows "\<exists>w0 fin. prepare ext d asr (dip \<and> born d \<noteq> None \<and> dielectric d \<noteq> None)
                    = Inr (set_up ext d asr dip, w0)
           \<and> q_loop (q_step ext d (set_up ext d asr dip) p (splitting_on d dip spl) qpts)
                [0..<length qpts] (initial_accum (n_ions d) (length qpts) w0) = Inr fin
           \<and> r = collect_results ext fin"
  using assms unfolding calculate_fine_phonons_def Let_def set_up_def splitting_on_def
  by (auto split: sum.splits prod.splits)

lemma run_ok:
  assumes "det3 (mtranspose (of_int_mat (sc_matrix d))) \<noteq> 0"
    and "dip \<and> born d \<noteq> None \<and> dielectric d \<noteq> None \<longrightarrow>
           (\<exists>ew. dipole_correction_init ext d = Inr ew) \<and> 0 < det3 (the (dielectric d))"
    and "splitting_on d dip spl \<and> (\<exists>q < length qpts. is_gamma ext (qpts ! q))
           \<longrightarrow> 2 \<le> length qpts"
  shows "\<exists>r. calculate_fine_phonons ext d qpts asr p dip spl = Inr r"
proof -
  let ?dip = "dip \<and> born d \<noteq> None \<and> dielectric d \<noteq> None"
  obtain pr w0 where pr: "prepare ext d asr ?dip = Inr (pr, w0)"
    using prepare_ok [OF assms(1,2)] by blast
  have pe: "p_ewald pr \<noteq> None \<longrightarrow> 0 < det3 (the (dielectric d))"
    using prepare_fields(2) [OF pr] assms(2) by blast
  have "\<exists>fin. q_loop (q_step ext d pr p (spl \<and> ?dip) qpts) [0..<length qpts]
           (initial_accum (n_ions d) (length qpts) w0) = Inr fin"
  proof (rule q_loop_ok)
    fix q st assume "q \<in> set [0..<length qpts]"
    then have q: "q < length qpts" by simp
    have "(spl \<and> ?dip) \<and> is_gamma ext (qpts ! q) \<longrightarrow> 2 \<le> length qpts"
      using assms(3) q unfolding splitting_on_def by blast
    then show "\<exists>st'. q_step ext d pr p (spl \<and> ?dip) qpts q st = Inr st'"
      by (rule q_step_ok [OF pe _ q])
  qed
  then show ?thesis unfolding calculate_fine_phonons_def Let_def pr by auto
qed

text \<open>Each q-point of a run that returns has its matrix and its corrections.\<close>

lemma run_q_point:
  assumes "calculate_fine_phonons ext d qpts asr p dip spl = Inr r" and "q < length qpts"
  shows "\<exists>dm corrs. q_dyn_mat ext d (set_up ext d asr dip) (qpts ! q) = Inr dm
           \<and> na_corrs ext d (splitting_on d dip spl) qpts q = Inr corrs"
proof -
  from run_unfold [OF assms(1)] obtain w0 fin where
    loop: "q_loop (q_step ext d (set_up ext d asr dip) p (splitting_on d dip spl) qpts)
                [0..<length qpts] (initial_accum (n_ions d) (length qpts) w0) = Inr fin"
    by blast
  have "Suc q \<le> length qpts" using assms(2) by simp
  from q_loop_prefix [OF loop this] obtain st2 where
    "q_loop (q_step ext d (set_up ext d asr dip) p (splitting_on d dip spl) qpts)
                [0..<Suc q] (initial_accum (n_ions d) (length qpts) w0) = Inr st2" by blast
  then obtain st1 where "q_step ext d (set_up ext d asr dip) p (splitting_on d dip spl) qpts q st1 = Inr st2"
    by (auto simp: q_loop_append split: sum.splits)
  then show ?thesis by (auto simp: q_step_def Let_def split: sum.splits)
qed

text \<open>What a run returns, in terms of the solver calls.\<close>

lemma run_solutions:
  fixes ext d qpts asr p dip spl
  defines "sol \<equiv> q_solutions ext d (set_up ext d asr dip) p (splitting_on d dip spl) qpts"
  assumes "calculate_fine_phonons ext d qpts asr p dip spl = Inr r"
  shows "length (r_freqs r) = length qpts"
    and "length (r_eigenvecs r) = length qpts"
    and "q < length qpts \<Longrightarrow>
           r_freqs r ! q = map (to_freq_units ext) (signed_freqs (fst (hd (sol q))))"
    and "q < length qpts \<Longrightarrow> r_eigenvecs r ! q = reshape_evecs (snd (hd (sol q)))"
    and "r_split_i r = concat (map (\<lambda>q. replicate
           (length (q_corrs ext d (splitting_on d dip spl) qpts q) - 1) q) [0..<length qpts])"
    and "r_split_freqs r = concat (map (\<lambda>q. map (\<lambda>s. map (to_freq_units ext)
           (signed_freqs (fst s))) (tl (sol q))) [0..<length qpts])"
    and "r_split_eigenvecs r = concat (map (\<lambda>q. map (\<lambda>s. reshape_evecs (snd s)) (tl (sol q)))
           [0..<length qpts])"
proof -
  from run_unfold [OF assms(2)] obtain w0 fin where
    loop: "q_loop (q_step ext d (set_up ext d asr dip) p (splitting_on d dip spl) qpts)
                [0..<length qpts] (initial_accum (n_ions d) (length qpts) w0) = Inr fin"
    and r: "r = collect_results ext fin"
    by blast
  have i: "prev_evecs (initial_accum (n_ions d) (length qpts) w0) = identity (3 * n_ions d)"
    by (simp add: initial_accum_def)
  note S = q_loop_state [OF loop i, folded sol_def]
  have lf: "length (freqs (initial_accum (n_ions d) (length qpts) w0)) = length qpts"
    and le: "length (eigenvecs (initial_accum (n_ions d) (length qpts) w0)) = length qpts"
    and sp: "split_i (initial_accum (n_ions d) (length qpts) w0) = []"
      "split_freqs (initial_accum (n_ions d) (length qpts) w0) = []"
      "split_eigenvecs (initial_accum (n_ions d) (length qpts) w0) = []"
    by (simp_all add: initial_accum_def)
  show "length (r_freqs r) = length qpts" using S lf by (simp add: r collect_results_def)
  show "length (r_eigenvecs r) = length qpts" using S le by (simp add: r collect_results_def)
  show "r_freqs r ! q = map (to_freq_units ext) (signed_freqs (fst (hd (sol q))))"
    if "q < length qpts"
    using S lf that by (simp add: r collect_results_def)
  show "r_eigenvecs r ! q = reshape_evecs (snd (hd (sol q)))" if "q < length qpts"
    using S le that by (simp add: r collect_results_def)
  show "r_split_i r = concat (map (\<lambda>q. replicate
           (length (q_corrs ext d (splitting_on d dip spl) qpts q) - 1) q) [0..<length qpts])"
    using S sp by (simp add: r collect_results_def)
  show "r_split_freqs r = concat (map (\<lambda>q. map (\<lambda>s. map (to_freq_units ext)
           (signed_freqs (fst s))) (tl (sol q))) [0..<length qpts])"
    using S sp by (simp add: r collect_results_def map_concat comp_def)
  show "r_split_eigenvecs r = concat (map (\<lambda>q. map (\<lambda>s. reshape_evecs (snd s)) (tl (sol q)))
           [0..<length qpts])"
    using S sp by (simp add: r collect_results_def)
qed

subsection \<open>The matrices a run hands to the solver\<close>

lemma hd_mode_solutions:
  "corrs \<noteq> [] \<Longrightarrow> hd (mode_solutions ext wt p dm prev corrs)
     = diagonalise ext (corrected_dyn_mat wt p prev dm (hd corrs))"
  by (cases corrs) simp_all

lemma run_weighting:
  assumes "calculate_fine_phonons ext d qpts asr p dip spl = Inr r"
  shows "p_dyn_mat_weighting (set_up ext d asr dip) = dyn_mat_weighting d"
  using run_unfold [OF assms] prepare_fields(1) by blast

lemma run_corrs:
  assumes "calculate_fine_phonons ext d qpts asr p dip spl = Inr r" and "q < length qpts"
  shows "na_corrs ext d (splitting_on d dip spl) qpts q
           = Inr (q_corrs ext d (splitting_on d dip spl) qpts q)"
    and "q_corrs ext d (splitting_on d dip spl) qpts q \<noteq> []"
proof -
  obtain corrs where c: "na_corrs ext d (splitting_on d dip spl) qpts q = Inr corrs"
    using run_q_point [OF assms] by blast
  show "na_corrs ext d (splitting_on d dip spl) qpts q
           = Inr (q_corrs ext d (splitting_on d dip spl) qpts q)"
    by (simp add: q_corrs_def c)
  show "q_corrs ext d (splitting_on d dip spl) qpts q \<noteq> []"
    using na_corrs_nonempty [OF c] by (simp add: q_corrs_def c)
qed

lemma run_first_solution:
  fixes ext d qpts asr p dip spl q
  defines "M \<equiv> corrected_dyn_mat (dyn_mat_weighting d) p
       (prev_before ext d (set_up ext d asr dip) p (splitting_on d dip spl) qpts q)
       (q_matrix ext d (set_up ext d asr dip) (qpts ! q))
       (hd (q_corrs ext d (splitting_on d dip spl) qpts q))"
  assumes "calculate_fine_phonons ext d qpts asr p dip spl = Inr r" and "q < length qpts"
  shows "r_freqs r ! q = map (to_freq_units ext) (signed_freqs (fst (diagonalise ext M)))"
    and "r_eigenvecs r ! q = reshape_evecs (snd (diagonalise ext M))"
proof -
  have h: "hd (q_solutions ext d (set_up ext d asr dip) p (splitting_on d dip spl) qpts q)
             = diagonalise ext M"
    unfolding q_solutions_def M_def run_weighting [OF assms(2)]
    by (rule hd_mode_solutions) (rule run_corrs(2) [OF assms(2,3)])
  show "r_freqs r ! q = map (to_freq_units ext) (signed_freqs (fst (diagonalise ext M)))"
    using run_solutions(3) [OF assms(2,3)] h by simp
  show "r_eigenvecs r ! q = reshape_evecs (snd (diagonalise ext M))"
    using run_solutions(4) [OF assms(2,3)] h by simp
qed

text \<open>The corrections of a q-point, by its place in the list.\<close>

lemma run_two_points:
  assumes "calculate_fine_phonons ext d qpts asr p dip spl = Inr r" and "q < length qpts"
    and "splitting_on d dip spl" and "is_gamma ext (qpts ! q)"
  shows "2 \<le> length qpts"
proof -
  obtain corrs where c: "na_corrs ext d (splitting_on d dip spl) qpts q = Inr corrs"
    using run_q_point [OF assms(1,2)] by blast
  then obtain dirs where "q_dirs qpts q = Inr dirs"
    using assms(3,4) by (auto simp: na_corrs_def split: sum.splits)
  then show ?thesis using q_dirs_short assms(2) by blast
qed

lemma q_corrs_plain:
  "\<not> (s \<and> is_gamma ext (qpts ! q)) \<Longrightarrow> q_corrs ext d s qpts q = [None]"
  by (auto simp: q_corrs_def na_corrs_def)

lemma q_corrs_first:
  "s \<Longrightarrow> is_gamma ext (qpts ! 0) \<Longrightarrow> 2 \<le> length qpts \<Longrightarrow>
     q_corrs ext d s qpts 0 = [Some (calculate_gamma_correction ext d (the (born d))
        (the (dielectric d)) (qpts ! 1))]"
  by (simp add: q_corrs_def na_corrs_def q_dirs_first)

lemma q_corrs_last:
  "s \<Longrightarrow> is_gamma ext (qpts ! (length qpts - 1)) \<Longrightarrow> 2 \<le> length qpts \<Longrightarrow>
     q_corrs ext d s qpts (length qpts - 1) = [Some (calculate_gamma_correction ext d
        (the (born d)) (the (dielectric d)) (qpts ! (length qpts - 2)))]"
  using q_dirs_last [of qpts] by (simp add: q_corrs_def na_corrs_def)

lemma q_corrs_interior:
  "s \<Longrightarrow> is_gamma ext (qpts ! q) \<Longrightarrow> 0 < q \<Longrightarrow> q + 1 < length qpts \<Longrightarrow>
     q_corrs ext d s qpts q =
       [Some (calculate_gamma_correction ext d (the (born d)) (the (dielectric d))
                (map uminus (qpts ! (q - 1)))),
        Some (calculate_gamma_correction ext d (the (born d)) (the (dielectric d))
                (qpts ! (q + 1)))]"
  by (simp add: q_corrs_def na_corrs_def q_dirs_interior)

lemma q_corrs_count:
  assumes "calculate_fine_phonons ext d qpts asr p dip spl = Inr r" and "q < length qpts"
  shows "length (q_corrs ext d (splitting_on d dip spl) qpts q)
           = (if is_split ext (splitting_on d dip spl) qpts q then 2 else 1)"
proof (cases "splitting_on d dip spl \<and> is_gamma ext (qpts ! q)")
  case False
  then show ?thesis using q_corrs_plain [OF False] by (auto simp: is_split_def)
next
  case True
  then have two: "2 \<le> length qpts" using run_two_points [OF assms] by blast
  consider "q = 0" | "q = length qpts - 1" "0 < q" | "0 < q" "q + 1 < length qpts"
    using assms(2) by linarith
  then show ?thesis
  proof cases
    case 1
    then show ?thesis using True two q_corrs_first [of _ ext qpts d] by (simp add: is_split_def)
  next
    case 2
    then show ?thesis using True two q_corrs_last [of _ ext qpts d] by (simp add: is_split_def)
  next
    case 3
    then show ?thesis using True q_corrs_interior [of _ ext qpts q d] by (simp add: is_split_def)
  qed
qed

lemma concat_map_if: "concat (map (\<lambda>q. if P q then [q] else []) qs) = filter P qs"
  by (induction qs) auto

lemma run_split_i:
  assumes "calculate_fine_phonons ext d qpts asr p dip spl = Inr r"
  shows "r_split_i r = filter (is_split ext (splitting_on d dip spl) qpts) [0..<length qpts]"
proof -
  have e: "map (\<lambda>q. replicate (length (q_corrs ext d (splitting_on d dip spl) qpts q) - 1) q)
          [0..<length qpts]
      = map (\<lambda>q. if is_split ext (splitting_on d dip spl) qpts q then [q] else [])
          [0..<length qpts]"
    using q_corrs_count [OF assms] by (intro map_cong) auto
  show ?thesis unfolding run_solutions(5) [OF assms] e by (rule concat_map_if)
qed

text \<open>Where an extra mode set is in the split arrays.\<close>

lemma concat_length_filter:
  "(\<And>x. x \<in> set xs \<Longrightarrow> length (f x) = (if P x then 1 else 0)) \<Longrightarrow>
     length (concat (map f xs)) = length (filter P xs)"
  by (induction xs) auto

lemma concat_nth_filter:
  assumes "\<And>j. j < n \<Longrightarrow> length (f j) = (if P j then 1 else 0)" and "q < n" and "P q"
  shows "length (filter P [0..<q]) < length (concat (map f [0..<n]))"
    and "concat (map f [0..<n]) ! length (filter P [0..<q]) = hd (f q)"
proof -
  have split: "[0..<n] = [0..<q] @ q # [Suc q..<n]"
    using assms(2) by (metis le_add_diff_inverse less_imp_le_nat upt_add_eq_append upt_conv_Cons zero_le)
  have l: "length (concat (map f [0..<q])) = length (filter P [0..<q])"
    by (rule concat_length_filter) (use assms(1,2) in auto)
  have fq: "f q = [hd (f q)]" using assms(1) [OF assms(2)] assms(3) by (cases "f q") auto
  have c: "concat (map f [0..<n]) = concat (map f [0..<q]) @ hd (f q) # concat (map f [Suc q..<n])"
    by (subst split) (use fq in simp)
  show "length (filter P [0..<q]) < length (concat (map f [0..<n]))"
    unfolding c using l by simp
  show "concat (map f [0..<n]) ! length (filter P [0..<q]) = hd (f q)"
    unfolding c using l by (metis nth_append_length)
qed

lemma run_split_entry:
  fixes ext d qpts asr p dip spl q
  defines "pr \<equiv> set_up ext d asr dip"
  defines "k \<equiv> length (filter (is_split ext (splitting_on d dip spl) qpts) [0..<q])"
  defines "gc \<equiv> (\<lambda>q_dir. Some (calculate_gamma_correction ext d (the (born d))
                      (the (dielectric d)) q_dir))"
  defines "M1 \<equiv> corrected_dyn_mat (dyn_mat_weighting d) p
       (prev_before ext d pr p (splitting_on d dip spl) qpts q)
       (q_matrix ext d pr (qpts ! q)) (gc (map uminus (qpts ! (q - 1))))"
  defines "M2 \<equiv> corrected_dyn_mat (dyn_mat_weighting d) p (snd (diagonalise ext M1))
       (q_matrix ext d pr (qpts ! q)) (gc (qpts ! (q + 1)))"
  assumes "calculate_fine_phonons ext d qpts asr p dip spl = Inr r"
    and "is_split ext (splitting_on d dip spl) qpts q"
  shows "k < length (r_split_i r)" and "r_split_i r ! k = q"
    and "length (r_split_freqs r) = length (r_split_i r)"
    and "length (r_split_eigenvecs r) = length (r_split_i r)"
    and "r_split_freqs r ! k = map (to_freq_units ext) (signed_freqs (fst (diagonalise ext M2)))"
    and "r_split_eigenvecs r ! k = reshape_evecs (snd (diagonalise ext M2))"
proof -
  let ?s = "splitting_on d dip spl"
  let ?P = "is_split ext ?s qpts"
  let ?sol = "q_solutions ext d pr p ?s qpts"
  have q: "q < length qpts" and s: "?s" and g: "is_gamma ext (qpts ! q)"
    and int: "0 < q" "q + 1 < length qpts"
    using assms(7) by (auto simp: is_split_def)
  have lsol: "length (?sol j) = length (q_corrs ext d ?s qpts j)" for j
  proof -
    have "length (mode_solutions ext wt p dm pv cs) = length cs" for wt dm pv cs
      by (induction cs arbitrary: pv) auto
    then show ?thesis by (simp add: q_solutions_def)
  qed
  have cnt: "length (tl (?sol j)) = (if ?P j then 1 else 0)" if "j < length qpts" for j
    using q_corrs_count [OF assms(6) that] lsol [of j] by simp
  have sq: "?sol q = [diagonalise ext M1, diagonalise ext M2]"
    unfolding q_solutions_def q_corrs_interior [OF s g int, of d]
    by (simp add: M1_def M2_def gc_def pr_def run_weighting [OF assms(6)])
  have i1: "length (concat (map (\<lambda>j. if ?P j then [j] else []) [0..<length qpts])) > k"
    and i2: "concat (map (\<lambda>j. if ?P j then [j] else []) [0..<length qpts]) ! k = q"
    using concat_nth_filter [where f = "\<lambda>j. if ?P j then [j] else []" and P = ?P
        and n = "length qpts" and q = q] q assms(7)
    by (simp_all add: k_def)
  show "k < length (r_split_i r)" using i1 run_split_i [OF assms(6)] by (simp add: concat_map_if)
  show "r_split_i r ! k = q" using i2 run_split_i [OF assms(6)] by (simp add: concat_map_if)
  have lf: "length (concat (map (\<lambda>j. map (\<lambda>s. map (to_freq_units ext) (signed_freqs (fst s)))
              (tl (?sol j))) [0..<length qpts])) = length (filter ?P [0..<length qpts])"
    by (rule concat_length_filter) (use cnt in auto)
  have le: "length (concat (map (\<lambda>j. map (\<lambda>s. reshape_evecs (snd s))
              (tl (?sol j))) [0..<length qpts])) = length (filter ?P [0..<length qpts])"
    by (rule concat_length_filter) (use cnt in auto)
  show "length (r_split_freqs r) = length (r_split_i r)"
    using lf run_solutions(6) [OF assms(6)] run_split_i [OF assms(6)] by (simp add: pr_def)
  show "length (r_split_eigenvecs r) = length (r_split_i r)"
    using le run_solutions(7) [OF assms(6)] run_split_i [OF assms(6)] by (simp add: pr_def)
  have "concat (map (\<lambda>j. map (\<lambda>s. map (to_freq_units ext) (signed_freqs (fst s)))
              (tl (?sol j))) [0..<length qpts]) ! k
        = hd (map (\<lambda>s. map (to_freq_units ext) (signed_freqs (fst s))) (tl (?sol q)))"
    unfolding k_def
    by (rule concat_nth_filter(2)) (use cnt q assms(7) in auto)
  then show "r_split_freqs r ! k = map (to_freq_units ext) (signed_freqs (fst (diagonalise ext M2)))"
    using run_solutions(6) [OF assms(6), folded pr_def] by (simp add: sq)
  have "concat (map (\<lambda>j. map (\<lambda>s. reshape_evecs (snd s))
              (tl (?sol j))) [0..<length qpts]) ! k
        = hd (map (\<lambda>s. reshape_evecs (snd s)) (tl (?sol q)))"
    unfolding k_def
    by (rule concat_nth_filter(2)) (use cnt q assms(7) in auto)
  then show "r_split_eigenvecs r ! k = reshape_evecs (snd (diagonalise ext M2))"
    using run_solutions(7) [OF assms(6), folded pr_def] by (simp add: sq)
qed


lemma run_split_lengths:
  assumes "calculate_fine_phonons ext d qpts asr p dip spl = Inr r"
  shows "length (r_split_freqs r) = length (r_split_i r)"
    and "length (r_split_eigenvecs r) = length (r_split_i r)"
proof -
  let ?s = "splitting_on d dip spl"
  let ?P = "is_split ext ?s qpts"
  let ?sol = "q_solutions ext d (set_up ext d asr dip) p ?s qpts"
  have lsol: "length (?sol j) = length (q_corrs ext d ?s qpts j)" for j
  proof -
    have "length (mode_solutions ext wt p dm pv cs) = length cs" for wt dm pv cs
      by (induction cs arbitrary: pv) auto
    then show ?thesis by (simp add: q_solutions_def)
  qed
  have cnt: "length (tl (?sol j)) = (if ?P j then 1 else 0)" if "j < length qpts" for j
    using q_corrs_count [OF assms that] lsol [of j] by simp
  have lf: "length (concat (map (\<lambda>j. map (\<lambda>s. map (to_freq_units ext) (signed_freqs (fst s)))
              (tl (?sol j))) [0..<length qpts])) = length (filter ?P [0..<length qpts])"
    by (rule concat_length_filter) (use cnt in auto)
  have le: "length (concat (map (\<lambda>j. map (\<lambda>s. reshape_evecs (snd s))
              (tl (?sol j))) [0..<length qpts])) = length (filter ?P [0..<length qpts])"
    by (rule concat_length_filter) (use cnt in auto)
  show "length (r_split_freqs r) = length (r_split_i r)"
    using lf run_solutions(6) [OF assms] run_split_i [OF assms] by simp
  show "length (r_split_eigenvecs r) = length (r_split_i r)"
    using le run_solutions(7) [OF assms] run_split_i [OF assms] by simp
qed

lemma chunk_length: "length xs = k * n \<Longrightarrow> 0 < k \<Longrightarrow> length (chunk k xs) = n"
proof (induction n arbitrary: xs)
  case 0
  then show ?case by (simp add: chunk.simps)
next
  case (Suc n)
  then have "xs \<noteq> []" by auto
  moreover have "length (drop k xs) = k * n" using Suc.prems by simp
  ultimately show ?case using Suc by (subst chunk.simps) simp
qed

lemma chunk_nth:
  "length xs = k * n \<Longrightarrow> 0 < k \<Longrightarrow> i < n \<Longrightarrow> chunk k xs ! i = take k (drop (k * i) xs)"
proof (induction n arbitrary: xs i)
  case 0
  then show ?case by simp
next
  case (Suc n)
  then have ne: "xs \<noteq> []" by auto
  have ld: "length (drop k xs) = k * n" using Suc.prems by simp
  show ?case
  proof (cases i)
    case 0
    then show ?thesis using ne Suc.prems by (subst chunk.simps) simp
  next
    case (Suc j)
    then have "j < n" using Suc.prems by simp
    then have "chunk k (drop k xs) ! j = take k (drop (k * j) (drop k xs))"
      using Suc.IH [OF ld \<open>0 < k\<close>] by simp
    then show ?thesis using ne Suc \<open>0 < k\<close>
      by (subst chunk.simps) (simp add: add.commute)
  qed
qed

lemma take3_drop:
  assumes "3 * i + 2 < length xs"
  shows "take 3 (drop (3 * i) xs) = [xs ! (3 * i), xs ! (3 * i + 1), xs ! (3 * i + 2)]"
proof -
  have "length (take 3 (drop (3 * i) xs)) = 3" using assms by simp
  moreover have "\<And>a. a < 3 \<Longrightarrow> take 3 (drop (3 * i) xs) ! a = xs ! (3 * i + a)"
    using assms by simp
  ultimately show ?thesis
    by (intro nth_equalityI) (auto simp: nth_Cons' numeral_3_eq_3 less_Suc_eq)
qed

lemma mtranspose_nth:
  assumes "M \<noteq> []" "m < length (hd M)"
  shows "mtranspose M ! m = map (\<lambda>r. r ! m) M"
  using assms by (simp add: mtranspose_def)

lemma signed_freqs_sgn: "signed_freqs evals = map (\<lambda>e. sgn e * sqrt \<bar>e\<bar>) evals"
  by (simp add: signed_freqs_def sgn_real_def)

lemma reshape_evecs_entries:
  assumes "length evecs = 3 * n" and "\<forall>r \<in> set evecs. length r = 3 * n"
    and "0 < n"
  shows "length (reshape_evecs evecs) = 3 * n
    \<and> (\<forall>m < 3 * n. length (reshape_evecs evecs ! m) = n
        \<and> (\<forall>i < n. reshape_evecs evecs ! m ! i =
              [evecs ! (3 * i) ! m, evecs ! (3 * i + 1) ! m, evecs ! (3 * i + 2) ! m]))"
proof -
  have ne: "evecs \<noteq> []" using assms by auto
  have hd: "length (hd evecs) = 3 * n" using assms ne by (cases evecs) auto
  have c: "length (reshape_evecs evecs) = 3 * n"
    using ne hd by (simp add: reshape_evecs_def mtranspose_def)
  have d: "length (reshape_evecs evecs ! m) = n
        \<and> (\<forall>i < n. reshape_evecs evecs ! m ! i =
              [evecs ! (3 * i) ! m, evecs ! (3 * i + 1) ! m, evecs ! (3 * i + 2) ! m])"
    if m: "m < 3 * n" for m
  proof -
    let ?col = "map (\<lambda>r. r ! m) evecs"
    have col: "mtranspose evecs ! m = ?col" using mtranspose_nth ne hd m by metis
    have lm: "m < length (mtranspose evecs)" using ne hd m by (simp add: mtranspose_def)
    have r: "reshape_evecs evecs ! m = chunk 3 ?col"
      using lm col by (simp add: reshape_evecs_def)
    have lc: "length ?col = 3 * n" using assms by simp
    have l: "length (chunk 3 ?col) = n" using chunk_length [OF lc] by simp
    have e: "chunk 3 ?col ! i = [evecs ! (3 * i) ! m, evecs ! (3 * i + 1) ! m, evecs ! (3 * i + 2) ! m]"
      if i: "i < n" for i
    proof -
      have "chunk 3 ?col ! i = take 3 (drop (3 * i) ?col)"
        using chunk_nth [OF lc _ i] by simp
      also have "\<dots> = [?col ! (3 * i), ?col ! (3 * i + 1), ?col ! (3 * i + 2)]"
        using take3_drop [of i ?col] lc i by simp
      also have "\<dots> = [evecs ! (3 * i) ! m, evecs ! (3 * i + 1) ! m, evecs ! (3 * i + 2) ! m]"
        using assms i by simp
      finally show ?thesis .
    qed
    show ?thesis using r l e by simp
  qed
  show ?thesis using c d by blast
qed

text \<open>
  C3. For every q-point of a run that returns, the frequencies reported are, in the units of
  \<open>self.freqs\<close>, sign(eigenvalue) times the square root of the absolute eigenvalue, for the
  eigenvalues the solver returns for the mass-weighted corrected dynamical matrix of that
  q-point, so a negative eigenvalue gives the conversion of a negative number; the
  eigenvectors reported are the solver's, mode \<open>m\<close> (column \<open>m\<close> of the
  \<open>3 n_ions \<times> 3 n_ions\<close> output) reshaped into an \<open>n_ions \<times> 3\<close> array whose entry \<open>(i, a)\<close>
  is the flat component \<open>3 i + a\<close>. The extra mode sets of the split arrays are made in the
  same way from the further solutions of their q-points.
\<close>

theorem signed_frequencies_of_run:
  assumes "calculate_fine_phonons ext d qpts asr p dip spl = Inr r" and "q < length qpts"
  shows "let pr = set_up ext d asr dip; s = splitting_on d dip spl;
             M = corrected_dyn_mat (dyn_mat_weighting d) p (prev_before ext d pr p s qpts q)
                   (q_matrix ext d pr (qpts ! q)) (hd (q_corrs ext d s qpts q));
             evals = fst (diagonalise ext M); evecs = snd (diagonalise ext M);
             n = n_ions d
         in r_freqs r ! q = map (\<lambda>e. to_freq_units ext (sgn e * sqrt \<bar>e\<bar>)) evals
          \<and> (\<forall>m < length evals. evals ! m < 0 \<longrightarrow>
                (\<exists>f < 0. r_freqs r ! q ! m = to_freq_units ext f))
          \<and> r_eigenvecs r ! q = reshape_evecs evecs
          \<and> (0 < n \<and> length evecs = 3 * n \<and> (\<forall>row \<in> set evecs. length row = 3 * n) \<longrightarrow>
               length (r_eigenvecs r ! q) = 3 * n
             \<and> (\<forall>m < 3 * n. length (r_eigenvecs r ! q ! m) = n
                 \<and> (\<forall>i < n. r_eigenvecs r ! q ! m ! i =
                       [evecs ! (3 * i) ! m, evecs ! (3 * i + 1) ! m, evecs ! (3 * i + 2) ! m])))
          \<and> r_split_freqs r = concat (map (\<lambda>j. map (\<lambda>sol. map (\<lambda>e. to_freq_units ext
                 (sgn e * sqrt \<bar>e\<bar>)) (fst sol)) (tl (q_solutions ext d pr p s qpts j)))
               [0..<length qpts])
          \<and> r_split_eigenvecs r = concat (map (\<lambda>j. map (\<lambda>sol. reshape_evecs (snd sol))
                 (tl (q_solutions ext d pr p s qpts j))) [0..<length qpts])"
proof -
  define M where "M = corrected_dyn_mat (dyn_mat_weighting d) p
       (prev_before ext d (set_up ext d asr dip) p (splitting_on d dip spl) qpts q)
       (q_matrix ext d (set_up ext d asr dip) (qpts ! q))
       (hd (q_corrs ext d (splitting_on d dip spl) qpts q))"
  define evals where "evals = fst (diagonalise ext M)"
  define evecs where "evecs = snd (diagonalise ext M)"
  have f: "r_freqs r ! q = map (\<lambda>e. to_freq_units ext (sgn e * sqrt \<bar>e\<bar>)) evals"
    using run_first_solution(1) [OF assms] by (simp add: evals_def M_def signed_freqs_sgn)
  have neg: "\<exists>f < 0. r_freqs r ! q ! m = to_freq_units ext f"
    if "m < length evals" "evals ! m < 0" for m
  proof (intro exI conjI)
    show "r_freqs r ! q ! m = to_freq_units ext (sgn (evals ! m) * sqrt \<bar>evals ! m\<bar>)"
      using that f by simp
    show "sgn (evals ! m) * sqrt \<bar>evals ! m\<bar> < 0" using that by (simp add: sgn_real_def)
  qed
  have e: "r_eigenvecs r ! q = reshape_evecs evecs"
    using run_first_solution(2) [OF assms] by (simp add: evecs_def M_def)
  have sf: "r_split_freqs r = concat (map (\<lambda>j. map (\<lambda>sol. map (\<lambda>e. to_freq_units ext
                 (sgn e * sqrt \<bar>e\<bar>)) (fst sol))
                 (tl (q_solutions ext d (set_up ext d asr dip) p (splitting_on d dip spl) qpts j)))
               [0..<length qpts])"
    using run_solutions(6) [OF assms(1)] by (simp add: signed_freqs_sgn comp_def)
  have se: "r_split_eigenvecs r = concat (map (\<lambda>j. map (\<lambda>sol. reshape_evecs (snd sol))
                 (tl (q_solutions ext d (set_up ext d asr dip) p (splitting_on d dip spl) qpts j)))
               [0..<length qpts])"
    using run_solutions(7) [OF assms(1)] .
  have sh: "length (r_eigenvecs r ! q) = 3 * n_ions d
             \<and> (\<forall>m < 3 * n_ions d. length (r_eigenvecs r ! q ! m) = n_ions d
                 \<and> (\<forall>i < n_ions d. r_eigenvecs r ! q ! m ! i =
                       [evecs ! (3 * i) ! m, evecs ! (3 * i + 1) ! m, evecs ! (3 * i + 2) ! m]))"
    if "0 < n_ions d \<and> length evecs = 3 * n_ions d \<and> (\<forall>row \<in> set evecs. length row = 3 * n_ions d)"
    unfolding e by (rule reshape_evecs_entries) (use that in simp_all)
  show ?thesis
    unfolding Let_def M_def [symmetric] evals_def [symmetric] evecs_def [symmetric]
    using f neg e sh sf se by blast
qed

lemma cubic_ok:
  "2 \<le> length qpts \<Longrightarrow>
    \<exists>r. calculate_fine_phonons (zero_solvers k) cubic_cell qpts asr p dip spl = Inr r"
  by (rule run_ok)
     (simp_all add: zero_solvers_def cubic_cell_def det3_def mtranspose_def of_int_mat_def)

theorem signed_frequencies_of_run_witness:
  "let r = projr (calculate_fine_phonons soft_mode_solvers soft_cell
                    [[1 / 2, 0, 0], [1 / 4, 0, 0]] AsrNone False False False)
   in calculate_fine_phonons soft_mode_solvers soft_cell
         [[1 / 2, 0, 0], [1 / 4, 0, 0]] AsrNone False False False = Inr r
    \<and> r_freqs r ! 1 = [- 2, 0, 3]
    \<and> r_eigenvecs r ! 1 ! 2 = [[0, 0, 1]]
    \<and> r_split_freqs r = []"
proof -
  let ?qpts = "[[1 / 2, 0, 0], [1 / 4, 0, 0]] :: real list list"
  have "\<exists>r. calculate_fine_phonons soft_mode_solvers soft_cell ?qpts AsrNone False False False
          = Inr r"
    by (rule run_ok)
       (simp_all add: soft_mode_solvers_def soft_cell_def zero_solvers_def cubic_cell_def det3_def
          mtranspose_def of_int_mat_def splitting_on_def)
  then obtain r where r: "calculate_fine_phonons soft_mode_solvers soft_cell ?qpts AsrNone False
      False False = Inr r" by blast
  have q: "(1::nat) < length ?qpts" by simp
  have s9: "sqrt 9 = 3" using real_sqrt_abs [of 3] by simp
  have dg: "diagonalise soft_mode_solvers M = ([- 4, 0, 9], [[1, 0, 0], [0, 1, 0], [0, 0, 1]])"
    for M by (simp add: diagonalise_def soft_mode_solvers_def)
  have tf: "to_freq_units soft_mode_solvers = (\<lambda>x. x)"
    by (simp add: soft_mode_solvers_def zero_solvers_def)
  have n: "n_ions soft_cell = 1" by (simp add: soft_cell_def cubic_cell_def)
  have ns: "\<not> splitting_on soft_cell False False" by (simp add: splitting_on_def)
  have sols: "tl (q_solutions soft_mode_solvers soft_cell pr False False ?qpts j) = []" for pr j
    by (simp add: q_solutions_def q_corrs_plain)
  have rs: "reshape_evecs [[1, 0, 0], [0, 1, 0], [0, 0, 1 :: complex]] ! 2 = [[0, 0, 1]]"
    by code_simp
  show ?thesis
    using signed_frequencies_of_run [OF r q]
    by (simp add: r Let_def dg tf n s9 ns sols rs)
qed

text \<open>
  C10. For a q-point list with a single entry that is the zone centre, on an object that has
  Born charges and a dielectric tensor (with positive determinant, and an invertible
  supercell matrix, so that the set-up phase succeeds), and with \<open>dipole\<close> and
  \<open>splitting\<close> left at their defaults, \<open>calculate_fine_phonons\<close> fails with
  \<open>IndexError\<close>: the direction of approach is read from \<open>qpts[1]\<close>.
\<close>

theorem single_gamma_point_index_error:
  assumes "is_gamma ext q0" and "born d \<noteq> None" and "dielectric d \<noteq> None"
    and "0 < det3 (the (dielectric d))"
    and "det3 (mtranspose (of_int_mat (sc_matrix d))) \<noteq> 0"
    and "dipole_correction_init ext d = Inr ew"
  shows "calculate_fine_phonons ext d [q0] asr precondition True True = Inl IndexError"
proof -
  let ?dip = "True \<and> born d \<noteq> None \<and> dielectric d \<noteq> None"
  have "?dip \<longrightarrow> (\<exists>ew. dipole_correction_init ext d = Inr ew) \<and> 0 < det3 (the (dielectric d))"
    using assms(4,6) by blast
  from prepare_ok [OF assms(5) this] obtain pr w0 where
    pr: "prepare ext d asr ?dip = Inr (pr, w0)" by blast
  have pe: "p_ewald pr \<noteq> None \<longrightarrow> 0 < det3 (the (dielectric d))" using assms(4) by simp
  have s: "True \<and> ?dip" using assms(2,3) by simp
  have "q_step ext d pr precondition (True \<and> ?dip) [q0] 0 (initial_accum (n_ions d) (length [q0]) w0)
          = Inl IndexError"
    by (rule q_step_index_error [OF pe s assms(1)])
  then show ?thesis
    unfolding calculate_fine_phonons_def Let_def pr by simp
qed

theorem single_gamma_point_index_error_witness:
  "calculate_fine_phonons (zero_solvers 0) cubic_cell [[0, 0, 0]] AsrNone False True True
     = Inl IndexError"
  by (rule single_gamma_point_index_error)
     (simp_all add: zero_solvers_def cubic_cell_def det3_def mtranspose_def of_int_mat_def)

subsection \<open>Splitting at the zone centre\<close>

text \<open>
  C7 (as amended). When splitting is in effect and a q-point of a run that returns is the
  zone centre, the list has at least two points and the non-analytic corrections of that
  q-point are those of the directions: the single adjacent q-point at an end of the list
  (\<open>qpts[1]\<close> for the first entry, \<open>qpts[-2]\<close> for the last) and, in the interior, the
  previous q-point negated and then the next one as it is. The mode set of the first
  direction is stored as the q-point's own frequencies and eigenvectors; only the second
  direction of an interior point is appended to the split arrays against the q-point's
  index, solved with the eigenvectors of the first as \<open>prev_evecs\<close>. So \<open>split_i\<close> lists
  exactly the interior zone-centre points, once each, and an end point records no extra
  mode set.
\<close>

theorem lo_to_split_directions:
  assumes "calculate_fine_phonons ext d qpts asr p dip spl = Inr r"
    and "splitting_on d dip spl" and "q < length qpts" and "is_gamma ext (qpts ! q)"
  shows "let pr = set_up ext d asr dip;
             prev = prev_before ext d pr p True qpts q;
             solve = (\<lambda>prev q_dir. diagonalise ext (corrected_dyn_mat (dyn_mat_weighting d) p prev
                        (q_matrix ext d pr (qpts ! q))
                        (Some (calculate_gamma_correction ext d (the (born d))
                                 (the (dielectric d)) q_dir))));
             stored = (\<lambda>sol. r_freqs r ! q = map (to_freq_units ext) (signed_freqs (fst sol))
                              \<and> r_eigenvecs r ! q = reshape_evecs (snd sol));
             k = length (filter (is_split ext True qpts) [0..<q])
         in 2 \<le> length qpts
          \<and> (q = 0 \<longrightarrow> stored (solve prev (qpts ! 1)) \<and> q \<notin> set (r_split_i r))
          \<and> (q = length qpts - 1 \<longrightarrow>
                stored (solve prev (qpts ! (length qpts - 2))) \<and> q \<notin> set (r_split_i r))
          \<and> (0 < q \<and> q + 1 < length qpts \<longrightarrow>
                stored (solve prev (map uminus (qpts ! (q - 1))))
              \<and> k < length (r_split_i r) \<and> r_split_i r ! k = q
              \<and> r_split_freqs r ! k = map (to_freq_units ext) (signed_freqs (fst
                   (solve (snd (solve prev (map uminus (qpts ! (q - 1))))) (qpts ! (q + 1)))))
              \<and> r_split_eigenvecs r ! k = reshape_evecs (snd
                   (solve (snd (solve prev (map uminus (qpts ! (q - 1))))) (qpts ! (q + 1)))))
          \<and> r_split_i r = filter (is_split ext True qpts) [0..<length qpts]
          \<and> length (r_split_freqs r) = length (r_split_i r)
          \<and> length (r_split_eigenvecs r) = length (r_split_i r)"
proof -
  have s: "splitting_on d dip spl = True" using assms(2) by simp
  have two: "2 \<le> length qpts" using run_two_points [OF assms(1,3,2,4)] .
  note F = run_first_solution [OF assms(1,3), unfolded s]
  have si: "r_split_i r = filter (is_split ext True qpts) [0..<length qpts]"
    using run_split_i [OF assms(1)] by (simp add: s)
  have a: "r_freqs r ! q = map (to_freq_units ext) (signed_freqs (fst (diagonalise ext
              (corrected_dyn_mat (dyn_mat_weighting d) p
                 (prev_before ext d (set_up ext d asr dip) p True qpts q)
                 (q_matrix ext d (set_up ext d asr dip) (qpts ! q))
                 (Some (calculate_gamma_correction ext d (the (born d))
                                 (the (dielectric d)) (qpts ! 1)))))))
          \<and> r_eigenvecs r ! q = reshape_evecs (snd (diagonalise ext
              (corrected_dyn_mat (dyn_mat_weighting d) p
                 (prev_before ext d (set_up ext d asr dip) p True qpts q)
                 (q_matrix ext d (set_up ext d asr dip) (qpts ! q))
                 (Some (calculate_gamma_correction ext d (the (born d))
                                 (the (dielectric d)) (qpts ! 1))))))
          \<and> q \<notin> set (r_split_i r)" if "q = 0"
    using F assms(4) two that q_corrs_first [of True ext qpts d]
    by (simp add: si is_split_def)
  have b: "r_freqs r ! q = map (to_freq_units ext) (signed_freqs (fst (diagonalise ext
              (corrected_dyn_mat (dyn_mat_weighting d) p
                 (prev_before ext d (set_up ext d asr dip) p True qpts q)
                 (q_matrix ext d (set_up ext d asr dip) (qpts ! q))
                 (Some (calculate_gamma_correction ext d (the (born d))
                                 (the (dielectric d)) (qpts ! (length qpts - 2))))))))
          \<and> r_eigenvecs r ! q = reshape_evecs (snd (diagonalise ext
              (corrected_dyn_mat (dyn_mat_weighting d) p
                 (prev_before ext d (set_up ext d asr dip) p True qpts q)
                 (q_matrix ext d (set_up ext d asr dip) (qpts ! q))
                 (Some (calculate_gamma_correction ext d (the (born d))
                                 (the (dielectric d)) (qpts ! (length qpts - 2)))))))
          \<and> q \<notin> set (r_split_i r)" if "q = length qpts - 1"
    using F assms(4) two that q_corrs_last [of True ext qpts d]
    by (auto simp: si is_split_def)
  have c: "r_freqs r ! q = map (to_freq_units ext) (signed_freqs (fst (diagonalise ext
              (corrected_dyn_mat (dyn_mat_weighting d) p
                 (prev_before ext d (set_up ext d asr dip) p True qpts q)
                 (q_matrix ext d (set_up ext d asr dip) (qpts ! q))
                 (Some (calculate_gamma_correction ext d (the (born d))
                                 (the (dielectric d)) (map uminus (qpts ! (q - 1)))))))))
          \<and> r_eigenvecs r ! q = reshape_evecs (snd (diagonalise ext
              (corrected_dyn_mat (dyn_mat_weighting d) p
                 (prev_before ext d (set_up ext d asr dip) p True qpts q)
                 (q_matrix ext d (set_up ext d asr dip) (qpts ! q))
                 (Some (calculate_gamma_correction ext d (the (born d))
                                 (the (dielectric d)) (map uminus (qpts ! (q - 1))))))))"
    if "0 < q \<and> q + 1 < length qpts"
    using F assms(4) that q_corrs_interior [of True ext qpts q d] by simp
  have sp: "is_split ext (splitting_on d dip spl) qpts q" if "0 < q \<and> q + 1 < length qpts"
    using that assms(2,4) by (simp add: is_split_def)
  note E = run_split_entry [OF assms(1), unfolded s]
  have e: "length (filter (is_split ext True qpts) [0..<q]) < length (r_split_i r)
      \<and> r_split_i r ! length (filter (is_split ext True qpts) [0..<q]) = q
      \<and> r_split_freqs r ! length (filter (is_split ext True qpts) [0..<q]) =
          map (to_freq_units ext) (signed_freqs (fst (diagonalise ext
            (corrected_dyn_mat (dyn_mat_weighting d) p
               (snd (diagonalise ext (corrected_dyn_mat (dyn_mat_weighting d) p
                  (prev_before ext d (set_up ext d asr dip) p True qpts q)
                  (q_matrix ext d (set_up ext d asr dip) (qpts ! q))
                  (Some (calculate_gamma_correction ext d (the (born d))
                                 (the (dielectric d)) (map uminus (qpts ! (q - 1))))))))
               (q_matrix ext d (set_up ext d asr dip) (qpts ! q))
               (Some (calculate_gamma_correction ext d (the (born d))
                                 (the (dielectric d)) (qpts ! (q + 1))))))))
      \<and> r_split_eigenvecs r ! length (filter (is_split ext True qpts) [0..<q]) =
          reshape_evecs (snd (diagonalise ext
            (corrected_dyn_mat (dyn_mat_weighting d) p
               (snd (diagonalise ext (corrected_dyn_mat (dyn_mat_weighting d) p
                  (prev_before ext d (set_up ext d asr dip) p True qpts q)
                  (q_matrix ext d (set_up ext d asr dip) (qpts ! q))
                  (Some (calculate_gamma_correction ext d (the (born d))
                                 (the (dielectric d)) (map uminus (qpts ! (q - 1))))))))
               (q_matrix ext d (set_up ext d asr dip) (qpts ! q))
               (Some (calculate_gamma_correction ext d (the (born d))
                                 (the (dielectric d)) (qpts ! (q + 1)))))))"
    if "0 < q \<and> q + 1 < length qpts"
    using E(1,2,5,6) [OF sp [OF that, unfolded s]] by simp
  show ?thesis
    unfolding Let_def
  proof (intro conjI impI)
    show "2 \<le> length qpts" by (rule two)
    show "r_split_i r = filter (is_split ext True qpts) [0..<length qpts]" by (rule si)
    show "length (r_split_freqs r) = length (r_split_i r)"
      by (rule run_split_lengths [OF assms(1)])
    show "length (r_split_eigenvecs r) = length (r_split_i r)"
      by (rule run_split_lengths [OF assms(1)])
  qed (use a b c e in simp_all)
qed

theorem lo_to_split_directions_witness:
  "let ext = zero_solvers 0; d = cubic_cell;
       qpts = [[0, 0, 0], [1 / 2, 0, 0], [0, 0, 0], [1 / 4, 0, 0], [0, 0, 0]];
       r = projr (calculate_fine_phonons ext d qpts AsrNone False True True);
       pr = set_up ext d AsrNone True;
       prev = prev_before ext d pr False True qpts;
       solve = (\<lambda>q prev q_dir. diagonalise ext (corrected_dyn_mat (dyn_mat_weighting d) False prev
                  (q_matrix ext d pr (qpts ! q))
                  (Some (calculate_gamma_correction ext d (the (born d)) (the (dielectric d))
                     q_dir))))
   in calculate_fine_phonons ext d qpts AsrNone False True True = Inr r
    \<and> r_split_i r = [2]
    \<and> r_freqs r ! 0 = signed_freqs (fst (solve 0 (prev 0) [1 / 2, 0, 0]))
    \<and> r_freqs r ! 2 = signed_freqs (fst (solve 2 (prev 2) [- (1 / 2), 0, 0]))
    \<and> r_split_freqs r ! 0 = signed_freqs (fst
         (solve 2 (snd (solve 2 (prev 2) [- (1 / 2), 0, 0])) [1 / 4, 0, 0]))
    \<and> r_split_eigenvecs r ! 0 = reshape_evecs (snd
         (solve 2 (snd (solve 2 (prev 2) [- (1 / 2), 0, 0])) [1 / 4, 0, 0]))
    \<and> r_freqs r ! 4 = signed_freqs (fst (solve 4 (prev 4) [1 / 4, 0, 0]))"
proof -
  let ?qpts = "[[0, 0, 0], [1 / 2, 0, 0], [0, 0, 0], [1 / 4, 0, 0], [0, 0, 0]] :: real list list"
  let ?run = "calculate_fine_phonons (zero_solvers 0) cubic_cell ?qpts AsrNone False True True"
  have r: "?run = Inr (projr ?run)"
    using cubic_ok [of ?qpts 0 AsrNone False True True] by fastforce
  have s: "splitting_on cubic_cell True True" by (simp add: splitting_on_def cubic_cell_def)
  have g: "is_gamma (zero_solvers 0) (?qpts ! 0)" "is_gamma (zero_solvers 0) (?qpts ! 2)"
    "is_gamma (zero_solvers 0) (?qpts ! 4)"
    by (simp_all add: zero_solvers_def)
  have q: "0 < length ?qpts" "2 < length ?qpts" "4 < length ?qpts" by simp_all
  have isp: "is_split (zero_solvers 0) True ?qpts q \<longleftrightarrow> q = 2" for q
  proof -
    consider "q = 0" | "q = 1" | "q = 2" | "q = 3" | "4 \<le> q" by linarith
    then show ?thesis
      by cases (simp_all add: is_split_def zero_solvers_def)
  qed
  have tf: "to_freq_units (zero_solvers 0) = (\<lambda>x. x)" by (simp add: zero_solvers_def)
  have bd: "the (born cubic_cell) = [[[0, 0, 0], [0, 0, 0], [0, 0, 0]]]"
    "the (dielectric cubic_cell) = [[1, 0, 0], [0, 1, 0], [0, 0, 1]]"
    by (simp_all add: cubic_cell_def)
  note A = lo_to_split_directions [OF r s q(1) g(1), unfolded Let_def]
  note B = lo_to_split_directions [OF r s q(2) g(2), unfolded Let_def]
  note C = lo_to_split_directions [OF r s q(3) g(3), unfolded Let_def]
  show ?thesis
    unfolding Let_def
    using A B C r by (simp add: isp tf)
qed

text \<open>
  The claim as stated fails: for the list \<open>[(0, 0, 0), (1/2, 0, 0)]\<close> the first point is the
  zone centre, the correction of one direction \<open>(1/2, 0, 0)\<close> is computed for it, and the
  run returns with no extra mode set recorded.
\<close>

theorem end_point_gamma_counterexample:
  "let ext = zero_solvers 0; d = cubic_cell; qpts = [[0, 0, 0], [1 / 2, 0, 0]];
       r = projr (calculate_fine_phonons ext d qpts AsrNone False True True)
   in calculate_fine_phonons ext d qpts AsrNone False True True = Inr r
    \<and> is_gamma ext (qpts ! 0)
    \<and> na_corrs ext d (splitting_on d True True) qpts 0 =
         Inr [Some (calculate_gamma_correction ext d (the (born d)) (the (dielectric d))
                [1 / 2, 0, 0])]
    \<and> r_split_i r = [] \<and> r_split_freqs r = [] \<and> r_split_eigenvecs r = []"
proof -
  let ?qpts = "[[0, 0, 0], [1 / 2, 0, 0]] :: real list list"
  let ?run = "calculate_fine_phonons (zero_solvers 0) cubic_cell ?qpts AsrNone False True True"
  have r: "?run = Inr (projr ?run)"
    using cubic_ok [of ?qpts 0 AsrNone False True True] by fastforce
  have s: "splitting_on cubic_cell True True" by (simp add: splitting_on_def cubic_cell_def)
  have g: "is_gamma (zero_solvers 0) (?qpts ! 0)" by (simp add: zero_solvers_def)
  have "filter (is_split (zero_solvers 0) (splitting_on cubic_cell True True) ?qpts)
          [0..<length ?qpts] = []"
    by (simp add: is_split_def upt_rec)
  then have i: "r_split_i (projr ?run) = []" using run_split_i [OF r] by simp
  have f: "r_split_freqs (projr ?run) = []" "r_split_eigenvecs (projr ?run) = []"
    using run_split_lengths [OF r] i by simp_all
  have c: "na_corrs (zero_solvers 0) cubic_cell (splitting_on cubic_cell True True) ?qpts 0 =
         Inr [Some (calculate_gamma_correction (zero_solvers 0) cubic_cell (the (born cubic_cell))
                (the (dielectric cubic_cell)) [1 / 2, 0, 0])]"
    using run_corrs(1) [OF r, of 0] q_corrs_first [OF s g, of cubic_cell] by simp
  show ?thesis
    unfolding Let_def using r g c i f by blast
qed

subsection \<open>The eigensolvers\<close>

lemma diagonalise_info:
  "diagonalise (ext \<lparr> zheev := \<lambda>M. (w M, v M, i M) \<rparr>) M =
     (case eigh ext M of Some sol \<Rightarrow> sol | None \<Rightarrow> (w M, v M))"
  by (simp add: diagonalise_def split: option.splits)

lemma mode_step_info:
  "mode_step (ext \<lparr> zheev := \<lambda>M. (w M, v M, i1 M) \<rparr>) =
   mode_step (ext \<lparr> zheev := \<lambda>M. (w M, v M, i2 M) \<rparr>)"
  by (intro ext) (simp add: mode_step_def diagonalise_info)

lemma solve_modes_info:
  "solve_modes (ext \<lparr> zheev := \<lambda>M. (w M, v M, i1 M) \<rparr>) =
   solve_modes (ext \<lparr> zheev := \<lambda>M. (w M, v M, i2 M) \<rparr>)"
  by (intro ext)
     (simp add: solve_modes_def
        mode_step_info [where ext = ext and w = w and v = v and ?i1.0 = i1 and ?i2.0 = i2])

lemma dipole_zheev:
  "calculate_dipole_correction (ext \<lparr> zheev := z \<rparr>) = calculate_dipole_correction ext"
  by (intro ext) (simp add: calculate_dipole_correction_def cong: option.case_cong sum.case_cong prod.case_cong if_cong)

lemma dyn_mat_with_dipole_zheev:
  "dyn_mat_with_dipole (ext \<lparr> zheev := z \<rparr>) = dyn_mat_with_dipole ext"
  by (intro ext) (simp add: dyn_mat_with_dipole_def dipole_zheev cong: option.case_cong sum.case_cong prod.case_cong if_cong)

lemma q_dyn_mat_zheev: "q_dyn_mat (ext \<lparr> zheev := z \<rparr>) = q_dyn_mat ext"
  by (intro ext) (simp add: q_dyn_mat_def dyn_mat_with_dipole_zheev)

lemma reciprocal_asr_zheev:
  "enforce_reciprocal_asr (ext \<lparr> zheev := z \<rparr>) = enforce_reciprocal_asr ext"
  by (intro ext) (simp add: enforce_reciprocal_asr_def cong: option.case_cong sum.case_cong prod.case_cong if_cong)

lemma asr_dyn_mat_zheev: "asr_dyn_mat (ext \<lparr> zheev := z \<rparr>) = asr_dyn_mat ext"
  by (intro ext) (simp add: asr_dyn_mat_def reciprocal_asr_zheev cong: option.case_cong)

lemma gamma_correction_zheev:
  "calculate_gamma_correction (ext \<lparr> zheev := z \<rparr>) = calculate_gamma_correction ext"
  by (intro ext) (simp add: calculate_gamma_correction_def Let_def)

lemma na_corrs_zheev: "na_corrs (ext \<lparr> zheev := z \<rparr>) = na_corrs ext"
  by (intro ext) (simp add: na_corrs_def gamma_correction_zheev cong: sum.case_cong if_cong)

lemma realspace_asr_zheev:
  "enforce_realspace_asr (ext \<lparr> zheev := z \<rparr>) = enforce_realspace_asr ext"
  by (intro ext) (simp add: enforce_realspace_asr_def cong: option.case_cong sum.case_cong prod.case_cong if_cong)

lemma fc_img_weighted_zheev:
  "fc_img_weighted (ext \<lparr> zheev := z \<rparr>) = fc_img_weighted ext"
  by (intro ext) (simp add: fc_img_weighted_def Let_def)

lemma collect_results_zheev:
  "collect_results (ext \<lparr> zheev := z \<rparr>) = collect_results ext"
  by (intro ext) (simp add: collect_results_def)

lemma prepare_zheev: "prepare (ext \<lparr> zheev := z \<rparr>) = prepare ext"
  by (intro ext)
     (simp add: prepare_def dyn_mat_with_dipole_zheev realspace_asr_zheev fc_img_weighted_zheev
        cong: option.case_cong sum.case_cong prod.case_cong if_cong)

lemma q_step_info:
  "q_step (ext \<lparr> zheev := \<lambda>M. (w M, v M, i1 M) \<rparr>) =
   q_step (ext \<lparr> zheev := \<lambda>M. (w M, v M, i2 M) \<rparr>)"
  by (intro ext)
     (simp add: q_step_def q_dyn_mat_zheev asr_dyn_mat_zheev na_corrs_zheev
        solve_modes_info [where ext = ext and w = w and v = v and ?i1.0 = i1 and ?i2.0 = i2]
        cong: option.case_cong sum.case_cong prod.case_cong if_cong)

lemma fine_phonons_info:
  "calculate_fine_phonons (ext \<lparr> zheev := \<lambda>M. (w M, v M, i1 M) \<rparr>) d qpts asr p dip spl =
   calculate_fine_phonons (ext \<lparr> zheev := \<lambda>M. (w M, v M, i2 M) \<rparr>) d qpts asr p dip spl"
  by (simp add: calculate_fine_phonons_def prepare_zheev collect_results_zheev
        q_step_info [where ext = ext and w = w and v = v and ?i1.0 = i1 and ?i2.0 = i2]
        cong: option.case_cong sum.case_cong prod.case_cong if_cong)

lemma zheev_eta:
  "ext \<lparr> zheev := \<lambda>M. (fst (zheev ext M), fst (snd (zheev ext M)), snd (snd (zheev ext M))) \<rparr>
     = ext"
  by simp

text \<open>
  C9 (as amended). For every q-point of a run that returns: if \<open>eigh\<close> raises
  \<open>LinAlgError\<close> for the q-point's matrix, the frequencies and eigenvectors reported for it
  are made from the eigenvalues and eigenvectors that \<open>zheev\<close> returns for that matrix; if
  \<open>eigh\<close> returns, they are made from its result. The status \<open>info\<close> that \<open>zheev\<close>
  returns is not read: the run returns the same result whatever \<open>info\<close> is, so a failure
  of both solvers is not reported, and no list of failed q-points exists.
\<close>

theorem eigensolver_fallback:
  assumes "calculate_fine_phonons ext d qpts asr p dip spl = Inr r" and "q < length qpts"
  shows "let pr = set_up ext d asr dip; s = splitting_on d dip spl;
             M = corrected_dyn_mat (dyn_mat_weighting d) p (prev_before ext d pr p s qpts q)
                   (q_matrix ext d pr (qpts ! q)) (hd (q_corrs ext d s qpts q))
         in (eigh ext M = None \<longrightarrow>
               r_freqs r ! q = map (to_freq_units ext) (signed_freqs (fst (zheev ext M)))
             \<and> r_eigenvecs r ! q = reshape_evecs (fst (snd (zheev ext M))))
          \<and> (\<forall>evals evecs. eigh ext M = Some (evals, evecs) \<longrightarrow>
               r_freqs r ! q = map (to_freq_units ext) (signed_freqs evals)
             \<and> r_eigenvecs r ! q = reshape_evecs evecs)
          \<and> (\<forall>info. calculate_fine_phonons
                 (ext \<lparr> zheev := \<lambda>M. (fst (zheev ext M), fst (snd (zheev ext M)), info M) \<rparr>)
                 d qpts asr p dip spl = Inr r)"
proof -
  define M where "M = corrected_dyn_mat (dyn_mat_weighting d) p
       (prev_before ext d (set_up ext d asr dip) p (splitting_on d dip spl) qpts q)
       (q_matrix ext d (set_up ext d asr dip) (qpts ! q))
       (hd (q_corrs ext d (splitting_on d dip spl) qpts q))"
  note F = run_first_solution [OF assms, folded M_def]
  have a: "r_freqs r ! q = map (to_freq_units ext) (signed_freqs (fst (zheev ext M)))
             \<and> r_eigenvecs r ! q = reshape_evecs (fst (snd (zheev ext M)))"
    if "eigh ext M = None"
    using F that by (simp add: diagonalise_def split: prod.splits)
  have b: "r_freqs r ! q = map (to_freq_units ext) (signed_freqs evals)
             \<and> r_eigenvecs r ! q = reshape_evecs evecs"
    if "eigh ext M = Some (evals, evecs)" for evals evecs
    using F that by (simp add: diagonalise_def)
  have c: "calculate_fine_phonons
                 (ext \<lparr> zheev := \<lambda>M. (fst (zheev ext M), fst (snd (zheev ext M)), info M) \<rparr>)
                 d qpts asr p dip spl = Inr r" for info
    using fine_phonons_info [where ext = ext and w = "\<lambda>M. fst (zheev ext M)"
        and v = "\<lambda>M. fst (snd (zheev ext M))" and ?i1.0 = "\<lambda>M. snd (snd (zheev ext M))"
        and ?i2.0 = info and d = d and qpts = qpts and asr = asr and p = p and dip = dip
        and spl = spl] assms(1)
    by (simp only: zheev_eta)
  show ?thesis
    unfolding Let_def M_def [symmetric] using a b c by blast
qed

lemma failing_ok:
  "\<exists>r. calculate_fine_phonons (failing_eigh k) cubic_cell qpts asr p False False = Inr r"
  by (rule run_ok)
     (simp_all add: failing_eigh_def zero_solvers_def cubic_cell_def det3_def mtranspose_def
        of_int_mat_def splitting_on_def)

theorem eigensolver_fallback_witness:
  "let qpts = [[1 / 2, 0, 0], [1 / 4, 0, 0]];
       r1 = projr (calculate_fine_phonons (failing_eigh 1) cubic_cell qpts AsrNone False
                    False False);
       r2 = projr (calculate_fine_phonons soft_mode_solvers soft_cell qpts AsrNone False
                    False False);
       M1 = corrected_dyn_mat (dyn_mat_weighting cubic_cell) False
              (prev_before (failing_eigh 1) cubic_cell
                 (set_up (failing_eigh 1) cubic_cell AsrNone False) False False qpts 1)
              (q_matrix (failing_eigh 1) cubic_cell
                 (set_up (failing_eigh 1) cubic_cell AsrNone False) [1 / 4, 0, 0]) None
   in calculate_fine_phonons (failing_eigh 1) cubic_cell qpts AsrNone False False False = Inr r1
    \<and> eigh (failing_eigh 1) M1 = None
    \<and> r_freqs r1 ! 1 = signed_freqs (fst (zheev (failing_eigh 1) M1))
    \<and> r_eigenvecs r1 ! 1 = reshape_evecs (fst (snd (zheev (failing_eigh 1) M1)))
    \<and> calculate_fine_phonons (failing_eigh 0) cubic_cell qpts AsrNone False False False = Inr r1
    \<and> calculate_fine_phonons soft_mode_solvers soft_cell qpts AsrNone False False False = Inr r2
    \<and> r_freqs r2 ! 1 = signed_freqs [- 4, 0, 9]"
proof -
  let ?qpts = "[[1 / 2, 0, 0], [1 / 4, 0, 0]] :: real list list"
  let ?run1 = "calculate_fine_phonons (failing_eigh 1) cubic_cell ?qpts AsrNone False False False"
  let ?run2 = "calculate_fine_phonons soft_mode_solvers soft_cell ?qpts AsrNone False False False"
  have r1: "?run1 = Inr (projr ?run1)" using failing_ok [of 1 ?qpts AsrNone False] by fastforce
  have "\<exists>r. ?run2 = Inr r"
    by (rule run_ok)
       (simp_all add: soft_mode_solvers_def soft_cell_def zero_solvers_def cubic_cell_def det3_def
          mtranspose_def of_int_mat_def splitting_on_def)
  then have r2: "?run2 = Inr (projr ?run2)" by fastforce
  have q: "(1::nat) < length ?qpts" by simp
  have e1: "eigh (failing_eigh 1) M = None" for M by (simp add: failing_eigh_def)
  have e2: "eigh soft_mode_solvers M = Some ([- 4, 0, 9], [[1, 0, 0], [0, 1, 0], [0, 0, 1]])"
    for M by (simp add: soft_mode_solvers_def)
  have tf: "to_freq_units (failing_eigh 1) = (\<lambda>x. x)" "to_freq_units soft_mode_solvers = (\<lambda>x. x)"
    by (simp_all add: failing_eigh_def soft_mode_solvers_def zero_solvers_def)
  have ns: "\<not> splitting_on cubic_cell False False" "\<not> splitting_on soft_cell False False"
    by (simp_all add: splitting_on_def)
  have f0: "failing_eigh 0 = (failing_eigh 1) \<lparr> zheev := \<lambda>M. (fst (zheev (failing_eigh 1) M),
               fst (snd (zheev (failing_eigh 1) M)), 0) \<rparr>"
    by (simp add: failing_eigh_def zero_solvers_def)
  note A = eigensolver_fallback [OF r1 q, unfolded Let_def]
  note B = eigensolver_fallback [OF r2 q, unfolded Let_def]
  have A3: "calculate_fine_phonons (failing_eigh 0) cubic_cell ?qpts AsrNone False False False
              = Inr (projr ?run1)"
    by (subst f0) (rule A [THEN conjunct2, THEN conjunct2, THEN spec, of "\<lambda>M. 0"])
  show ?thesis
    unfolding Let_def
    using A B A3 r1 r2 by (simp add: e1 e2 tf ns q_corrs_plain)
qed

text \<open>
  The claim as stated fails: with a primary solver that raises for every matrix and a
  fallback that returns \<open>info = 1\<close> (not converged) for every matrix, the run returns
  normally, it reports for each q-point what the fallback left in its output arrays, and
  its result is the one of the run in which the fallback reports \<open>info = 0\<close>: nothing in
  it tells the q-points at which both solvers failed.
\<close>

theorem solver_failure_not_reported_counterexample:
  "let qpts = [[1 / 2, 0, 0], [1 / 4, 0, 0]];
       r = projr (calculate_fine_phonons (failing_eigh 1) cubic_cell qpts AsrNone False
                    False False)
   in (\<forall>M. eigh (failing_eigh 1) M = None \<and> snd (snd (zheev (failing_eigh 1) M)) = 1
           \<and> snd (snd (zheev (failing_eigh 0) M)) = 0)
    \<and> calculate_fine_phonons (failing_eigh 1) cubic_cell qpts AsrNone False False False = Inr r
    \<and> calculate_fine_phonons (failing_eigh 0) cubic_cell qpts AsrNone False False False = Inr r
    \<and> length (r_freqs r) = 2"
proof -
  let ?qpts = "[[1 / 2, 0, 0], [1 / 4, 0, 0]] :: real list list"
  let ?run1 = "calculate_fine_phonons (failing_eigh 1) cubic_cell ?qpts AsrNone False False False"
  have r1: "?run1 = Inr (projr ?run1)" using failing_ok [of 1 ?qpts AsrNone False] by fastforce
  have i: "failing_eigh k = (failing_eigh 0)
      \<lparr> zheev := \<lambda>M. (replicate (length M) 0, identity (length M), k) \<rparr>" for k
    by (simp add: failing_eigh_def zero_solvers_def)
  have b: "?run1 = calculate_fine_phonons (failing_eigh 0) cubic_cell ?qpts AsrNone False
             False False"
    by (subst i [of 1], subst (2) i [of 0]) (rule fine_phonons_info)
  have l: "length (r_freqs (projr ?run1)) = 2" using run_solutions(1) [OF r1] by simp
  have s: "eigh (failing_eigh 1) M = None \<and> snd (snd (zheev (failing_eigh 1) M)) = 1
           \<and> snd (snd (zheev (failing_eigh 0) M)) = 0" for M
    by (simp add: failing_eigh_def zero_solvers_def)
  show ?thesis
    unfolding Let_def using s b [symmetric] r1 l by simp
qed

subsection \<open>The supercell images\<close>

lemma amax_ge: "x \<in> set xs \<Longrightarrow> x \<le> amax xs"
proof -
  assume x: "x \<in> set xs"
  then obtain a as where xs: "xs = a # as" by (cases xs) auto
  have "amax xs = Max (set xs)" unfolding xs amax_def
    by (metis Max.set_eq_fold list.sel(1) list.sel(3))
  then show ?thesis using x by simp
qed

lemma ws_images_empty:
  assumes "m < length ws_pts" "m < length inv_sq"
    and "\<And>im. im \<in> set cart \<Longrightarrow> 501 / 1000 < \<bar>dot (vsub (vsub ri rj) im) (ws_pts ! m) * inv_sq ! m\<bar>"
  shows "ws_images ws_pts inv_sq cart ri rj = []"
proof -
  have "\<not> amax (map2 (\<lambda>x s. \<bar>x * s\<bar>) (map (\<lambda>w. dot (vsub (vsub ri rj) (cart ! k)) w) ws_pts) inv_sq) \<le> 501 / 1000"
    if k: "k < length cart" for k
  proof -
    let ?row = "map2 (\<lambda>x s. \<bar>x * s\<bar>) (map (\<lambda>w. dot (vsub (vsub ri rj) (cart ! k)) w) ws_pts) inv_sq"
    have "m < length ?row" using assms by simp
    then have "?row ! m \<in> set ?row" by (rule nth_mem)
    moreover have "?row ! m = \<bar>dot (vsub (vsub ri rj) (cart ! k)) (ws_pts ! m) * inv_sq ! m\<bar>"
      using assms by simp
    ultimately have "\<bar>dot (vsub (vsub ri rj) (cart ! k)) (ws_pts ! m) * inv_sq ! m\<bar> \<le> amax ?row"
      using amax_ge by metis
    moreover have "501 / 1000 < \<bar>dot (vsub (vsub ri rj) (cart ! k)) (ws_pts ! m) * inv_sq ! m\<bar>"
      using assms(3) k by simp
    ultimately show ?thesis by linarith
  qed
  then show ?thesis
    by (auto simp: ws_images_def filter_empty_conv)
qed

lemma origins_box: "list_all (\<lambda>r. length r = 3 \<and> list_all (\<lambda>x. - 2 \<le> x \<and> x \<le> 2) r) (sc_image_r 2)"
  by code_simp

lemma origins_len: "length (sc_image_r 2) = 125"
  by code_simp



lemmas la_defs = matmul_def vecmat_def mtranspose_def dot_def of_int_mat_def vsub_def vadd_def

lemma skew_inv: "inv3 (mtranspose (of_int_mat (sc_matrix skew_cell))) = Some [[1, 0, 0], [0, 1, 0], [0, 0, 1]]"
  by (simp add: skew_cell_def inv3_def det3_def la_defs)

lemma skew_sc_vecs: "sc_vecs skew_cell = [[1, 0, 0], [6, 1, 0], [0, 0, 1]]"
  by (simp add: sc_vecs_def skew_cell_def la_defs)

lemma skew_ws: "tl (ws_list skew_cell) ! 4 = [1, 0, 0]" "length (tl (ws_list skew_cell)) = 13"
  by (simp_all add: ws_list_def skew_sc_vecs ws_frac_def la_defs)

lemma skew_inv_ws: "inv_ws_sq skew_cell ! 4 = 1" "length (inv_ws_sq skew_cell) = 13"
  using skew_ws by (simp_all add: inv_ws_sq_def nth_map)

lemma skew_ions: "sc_ion_cart skew_cell [[1, 0, 0], [0, 1, 0], [0, 0, 1]] 0 0 = [0, 0, 0]"
   "sc_ion_cart skew_cell [[1, 0, 0], [0, 1, 0], [0, 0, 1]] 0 1 = [3, 1 / 2, 0]"
  by (simp_all add: sc_ion_cart_def skew_sc_vecs la_defs) (simp_all add: skew_cell_def)

lemma skew_far:
  assumes "im \<in> set (sc_image_cart skew_cell 2)"
  shows "501 / 1000 < \<bar>dot (vsub (vsub [0, 0, 0] [3, 1 / 2, 0]) im) [1, 0, 0] * 1\<bar>"
proof -
  from assms obtain r where r: "r \<in> set (sc_image_r 2)" and im: "im = vecmat (map of_int r) (sc_vecs skew_cell)"
    by (auto simp: sc_image_cart_def matmul_def of_int_mat_def)
  from r origins_box have "length r = 3 \<and> list_all (\<lambda>x. - 2 \<le> x \<and> x \<le> 2) r"
    by (auto simp: list_all_iff)
  then obtain a b c where abc: "r = [a, b, c]" "- 2 \<le> a" "a \<le> 2" "- 2 \<le> b" "b \<le> 2"
    by (cases r; cases "tl r"; cases "tl (tl r)") auto
  have "dot (vsub (vsub [0, 0, 0] [3, 1 / 2, 0]) im) [1, 0, 0] * 1 = of_int (- 3 - a - 6 * b)"
    by (simp add: im abc skew_sc_vecs la_defs)
  moreover have "- 3 - a - 6 * b \<noteq> 0" using abc by presburger
  then have "1 \<le> \<bar>- 3 - a - 6 * b\<bar>" by linarith
  then have "1 \<le> \<bar>of_int (- 3 - a - 6 * b) :: real\<bar>"
    by (metis of_int_abs of_int_1_le_iff)
  ultimately show ?thesis by linarith
qed

lemma skew_zero: "image_list skew_cell 2 [[1, 0, 0], [0, 1, 0], [0, 0, 1]] 0 0 1 = []"
  unfolding image_list_def skew_ions
proof (rule ws_images_empty [where m = 4])
  show "4 < length (tl (ws_list skew_cell))" unfolding skew_ws by simp
  show "4 < length (inv_ws_sq skew_cell)" unfolding skew_inv_ws by simp
  show "501 / 1000 < \<bar>dot (vsub (vsub [0, 0, 0] [3, 1 / 2, 0]) im) (tl (ws_list skew_cell) ! 4)
      * inv_ws_sq skew_cell ! 4\<bar>" if "im \<in> set (sc_image_cart skew_cell 2)" for im
    unfolding skew_ws skew_inv_ws using skew_far [OF that] .
qed


lemma image_list_le: "length (image_list d 2 iv nc i j) \<le> 125"
proof -
  have "length (image_list d 2 iv nc i j) \<le> length (sc_image_cart d 2)"
    unfolding image_list_def ws_images_def Let_def
    by (rule order_trans [OF length_filter_le]) simp
  also have "\<dots> = 125" by (simp add: sc_image_cart_def matmul_def of_int_mat_def origins_len)
  finally show ?thesis .
qed

lemma sint_count: "n \<le> 125 \<Longrightarrow> sint (word_of_nat n :: 8 word) = int n"
  by (simp add: signed_of_nat signed_take_bit_int_eq_self)

lemma count_lookup:
  assumes "calculate_supercell_images d lm = Inr t" "nc < n_cells_in_sc d" "i < n_ions d"
    "j < n_ions d"
  shows "n_sc_images t ! nc ! i ! j = word_of_nat (length (image_list d lm
           (the (inv3 (mtranspose (of_int_mat (sc_matrix d))))) nc i j))"
  using assms
  by (auto simp: calculate_supercell_images_def Let_def split: option.splits)

lemma image_count:
  assumes "calculate_supercell_images d 2 = Inr t" "nc < n_cells_in_sc d" "i < n_ions d"
    "j < n_ions d"
  shows "sint (n_sc_images t ! nc ! i ! j) = int (length (image_list d 2
           (the (inv3 (mtranspose (of_int_mat (sc_matrix d))))) nc i j))"
  using count_lookup [OF assms] sint_count [OF image_list_le] by simp

text \<open>The tables of the set-up phase.\<close>

lemma prepare_tables:
  assumes "prepare ext d asr dip = Inr (pr, w0)"
  shows "calculate_supercell_images d 2 = Inr (p_images pr)"
    and "p_fc_img_weighted pr = fc_img_weighted ext (n_ions d)
           (if asr = AsrRealspace then fst (projr (enforce_realspace_asr ext d))
            else force_constants d) (p_images pr)"
    and "w0 = (if asr = AsrRealspace then snd (projr (enforce_realspace_asr ext d)) else [])"
proof -
  from assms obtain fc ew imgs where
    fc: "(if asr = AsrRealspace then enforce_realspace_asr ext d
           else Inr (force_constants d, [])) = Inr (fc, w0)"
    and imgs: "calculate_supercell_images d 2 = Inr imgs"
    and pr: "p_images pr = imgs" "p_fc_img_weighted pr = fc_img_weighted ext (n_ions d) fc imgs"
    unfolding prepare_def Let_def
    by (auto split: sum.splits prod.splits)
  show "calculate_supercell_images d 2 = Inr (p_images pr)" using imgs pr by simp
  have "fc = (if asr = AsrRealspace then fst (projr (enforce_realspace_asr ext d))
            else force_constants d)"
    and w: "w0 = (if asr = AsrRealspace then snd (projr (enforce_realspace_asr ext d)) else [])"
    using fc by (auto split: if_splits)
  then show "p_fc_img_weighted pr = fc_img_weighted ext (n_ions d)
           (if asr = AsrRealspace then fst (projr (enforce_realspace_asr ext d))
            else force_constants d) (p_images pr)" using pr by simp
  show "w0 = (if asr = AsrRealspace then snd (projr (enforce_realspace_asr ext d)) else [])"
    by (rule w)
qed

lemma run_tables:
  assumes "calculate_fine_phonons ext d qpts asr p dip spl = Inr r"
  shows "calculate_supercell_images d 2 = Inr (p_images (set_up ext d asr dip))"
    and "p_fc_img_weighted (set_up ext d asr dip) = fc_img_weighted ext (n_ions d)
           (if asr = AsrRealspace then fst (projr (enforce_realspace_asr ext d))
            else force_constants d) (p_images (set_up ext d asr dip))"
  using run_unfold [OF assms] prepare_tables(1,2) by blast+

text \<open>
  C2 (as amended). For every triple (origin cell, ion i, ion j) of a run that returns, the
  count stored in \<open>n_sc_images\<close> is the number of images that pass the Wigner-Seitz test
  among the 125 candidate translations, so it lies between 0 and 125 and fits the \<open>int8\<close>
  array; it can be 0. The image search raises only for a singular supercell matrix. A
  count of 0 is not an error: the entries of \<open>fc_img_weighted\<close> of such a triple are not
  written by \<open>np.divide(..., where=...)\<close> and keep the content of the fresh array, the other
  entries are the force constants divided by the count.
\<close>

theorem supercell_image_counts:
  assumes "calculate_fine_phonons ext d qpts asr p dip spl = Inr r"
    and "nc < n_cells_in_sc d" and "i < n_ions d" and "j < n_ions d"
  shows "let pr = set_up ext d asr dip;
             count = sint (n_sc_images (p_images pr) ! nc ! i ! j);
             found = image_list d 2 (the (inv3 (mtranspose (of_int_mat (sc_matrix d))))) nc i j;
             fc = (if asr = AsrRealspace then fst (projr (enforce_realspace_asr ext d))
                   else force_constants d)
         in calculate_supercell_images d 2 = Inr (p_images pr)
          \<and> count = int (length found) \<and> 0 \<le> count \<and> count \<le> 125
          \<and> (\<forall>d' lm e. calculate_supercell_images d' lm = Inl e \<longrightarrow>
                e = LinAlgError \<and> inv3 (mtranspose (of_int_mat (sc_matrix d'))) = None)
          \<and> (nc < length fc \<longrightarrow> (\<forall>a < 3. \<forall>b < 3.
                p_fc_img_weighted pr ! nc ! (3 * j + b) ! (3 * i + a) =
                  (if count = 0 then uninit ext nc (3 * j + b) (3 * i + a)
                   else fc ! nc ! (3 * j + b) ! (3 * i + a) / real_of_int count)))"
proof -
  let ?pr = "set_up ext d asr dip"
  let ?fc = "if asr = AsrRealspace then fst (projr (enforce_realspace_asr ext d))
                   else force_constants d"
  note T = run_tables [OF assms(1)]
  have c: "sint (n_sc_images (p_images ?pr) ! nc ! i ! j) = int (length (image_list d 2
           (the (inv3 (mtranspose (of_int_mat (sc_matrix d))))) nc i j))"
    by (rule image_count [OF T(1) assms(2,3,4)])
  have w: "p_fc_img_weighted ?pr ! nc ! (3 * j + b) ! (3 * i + a) =
                  (if sint (n_sc_images (p_images ?pr) ! nc ! i ! j) = 0
                   then uninit ext nc (3 * j + b) (3 * i + a)
                   else ?fc ! nc ! (3 * j + b) ! (3 * i + a)
                          / real_of_int (sint (n_sc_images (p_images ?pr) ! nc ! i ! j)))"
    if "nc < length ?fc" "a < 3" "b < 3" for a b
  proof -
    have x: "3 * i + a < 3 * n_ions d" and y: "3 * j + b < 3 * n_ions d"
      using that assms(3,4) by simp_all
    have dv: "(3 * i + a) div 3 = i" "(3 * j + b) div 3 = j" using that by simp_all
    show ?thesis
      unfolding T(2) fc_img_weighted_def using that(1) x y by (simp add: Let_def dv)
  qed
  show ?thesis
    unfolding Let_def
    using T(1) c image_list_le [of d _ nc i j] images_err w by (auto simp del: of_int_eq_0_iff)
qed


lemma skew_ok:
  "\<exists>r. calculate_fine_phonons (zero_solvers 0) skew_cell qpts asr p dip spl = Inr r"
  by (rule run_ok) (simp_all add: skew_cell_def det3_def la_defs splitting_on_def)

theorem supercell_image_counts_witness:
  "let r = projr (calculate_fine_phonons (zero_solvers 0) skew_cell [[1 / 2, 0, 0]] AsrNone
                    False True True);
       pr = set_up (zero_solvers 0) skew_cell AsrNone True
   in calculate_fine_phonons (zero_solvers 0) skew_cell [[1 / 2, 0, 0]] AsrNone False True True
        = Inr r
    \<and> sint (n_sc_images (p_images pr) ! 0 ! 0 ! 1) = 0
    \<and> p_fc_img_weighted pr ! 0 ! 3 ! 0 = 0
    \<and> 0 \<le> sint (n_sc_images (p_images pr) ! 0 ! 1 ! 1)
    \<and> sint (n_sc_images (p_images pr) ! 0 ! 1 ! 1) \<le> 125"
proof -
  let ?run = "calculate_fine_phonons (zero_solvers 0) skew_cell [[1 / 2, 0, 0]] AsrNone
                    False True True"
  have r: "?run = Inr (projr ?run)"
    using skew_ok [of "[[1 / 2, 0, 0]]" AsrNone False True True] by fastforce
  have n: "(0::nat) < n_cells_in_sc skew_cell" "(0::nat) < n_ions skew_cell"
    "(1::nat) < n_ions skew_cell"
    by (simp_all add: skew_cell_def)
  have fc: "(0::nat) < length (force_constants skew_cell)" by (simp add: skew_cell_def)
  have u: "uninit (zero_solvers 0) = (\<lambda>c y x. 0)" by (simp add: zero_solvers_def)
  note A = supercell_image_counts [OF r n(1) n(2) n(3), unfolded Let_def]
  note B = supercell_image_counts [OF r n(1) n(3) n(3), unfolded Let_def]
  have z: "sint (n_sc_images (p_images (set_up (zero_solvers 0) skew_cell AsrNone True))
              ! 0 ! 0 ! 1) = 0"
    using A skew_zero by (simp add: skew_inv)
  have w: "p_fc_img_weighted (set_up (zero_solvers 0) skew_cell AsrNone True) ! 0 ! 3 ! 0 = 0"
    using A [THEN conjunct2, THEN conjunct2, THEN conjunct2, THEN conjunct2, THEN conjunct2,
             THEN mp, THEN spec, of 0, THEN mp, THEN spec, of 0] fc z
    by (simp add: u)
  show ?thesis
    unfolding Let_def using r z w B by simp
qed

text \<open>
  The claim as stated fails: in the skewed two-ion cell no image of the displacement
  between the two ions passes the test, the count of that triple is 0, and the run
  returns.
\<close>

theorem zero_image_count_counterexample:
  "let run = calculate_fine_phonons (zero_solvers 0) skew_cell [[1 / 2, 0, 0]] AsrNone
               False True True;
       pr = set_up (zero_solvers 0) skew_cell AsrNone True
   in run = Inr (projr run)
    \<and> calculate_supercell_images skew_cell 2 = Inr (p_images pr)
    \<and> sint (n_sc_images (p_images pr) ! 0 ! 0 ! 1) = 0"
proof -
  let ?run = "calculate_fine_phonons (zero_solvers 0) skew_cell [[1 / 2, 0, 0]] AsrNone
                    False True True"
  let ?pr = "set_up (zero_solvers 0) skew_cell AsrNone True"
  have r: "?run = Inr (projr ?run)"
    using skew_ok [of "[[1 / 2, 0, 0]]" AsrNone False True True] by fastforce
  have t: "calculate_supercell_images skew_cell 2 = Inr (p_images ?pr)"
    by (rule run_tables(1) [OF r])
  have "sint (n_sc_images (p_images ?pr) ! 0 ! 0 ! 1) = int (length (image_list skew_cell 2
           (the (inv3 (mtranspose (of_int_mat (sc_matrix skew_cell))))) 0 0 1))"
    by (rule image_count [OF t]) (simp_all add: skew_cell_def)
  then have z: "sint (n_sc_images (p_images ?pr) ! 0 ! 0 ! 1) = 0"
    using skew_zero by (simp add: skew_inv)
  show ?thesis unfolding Let_def using r t z by simp
qed

end
